theory Spec2Isabelle
  imports Complex_Main "HOL-Library.Sublist"
begin

section \<open>JavaScript strings and numbers\<close>

text \<open>
  Strings are lists of code units; the model covers code units below 256, which is
  enough for every keyword, separator and pattern the checker compares against.
  A JavaScript number that may be \<open>NaN\<close> is an \<open>int option\<close> with \<open>None\<close> for
  \<open>NaN\<close>. Parsed integers are kept exact, where \<open>parseInt\<close> returns the nearest double
  (and \<open>Infinity\<close> for a digit string beyond the range of doubles). The two agree on every
  integer below \<open>2^53\<close>. Above it, rounding is monotone and fixes \<open>0\<close> and every integer
  a clock can return, so each comparison of an expiry with \<open>0\<close> or with the current
  second has the same outcome on the exact value; the values themselves differ there: the
  \<open>expires\<close> field of an injected cookie and the \<open>visitCount\<close> of a history entry, and
  with it the order of endpoints whose visit counts exceed \<open>2^53\<close>. No property below
  depends on those values.
\<close>

definition TAB :: char where
  "TAB = CHR 0x09"

definition LF :: char where
  "LF = CHR 0x0A"

definition isWhiteSpace :: "char \<Rightarrow> bool" where
  \<comment> \<open>the characters removed by \<open>trim\<close>, skipped by \<open>parseInt\<close> and matched by \<open>\s\<close>\<close>
  "isWhiteSpace c =
     (c = CHR 0x09 \<or> c = CHR 0x0A \<or> c = CHR 0x0B \<or> c = CHR 0x0C \<or> c = CHR 0x0D
      \<or> c = CHR 0x20 \<or> c = CHR 0xA0)"

definition charCode :: "char \<Rightarrow> nat" where
  "charCode c = of_char c"

definition inRange :: "char \<Rightarrow> char \<Rightarrow> char \<Rightarrow> bool" where
  \<comment> \<open>a character range of a class, as in \<open>[a-z]\<close>\<close>
  "inRange lo hi c = (charCode lo \<le> charCode c \<and> charCode c \<le> charCode hi)"

definition isDigit :: "char \<Rightarrow> bool" where
  "isDigit c = inRange (CHR ''0'') (CHR ''9'') c"

definition isWordChar :: "char \<Rightarrow> bool" where
  \<comment> \<open>the class \<open>\w\<close>\<close>
  "isWordChar c =
     (inRange (CHR ''a'') (CHR ''z'') c \<or> inRange (CHR ''A'') (CHR ''Z'') c
      \<or> isDigit c \<or> c = CHR ''_'')"

definition isDomainChar :: "char \<Rightarrow> bool" where
  \<comment> \<open>the class \<open>[\w.-]\<close>\<close>
  "isDomainChar c = (isWordChar c \<or> c = CHR ''.'' \<or> c = CHR ''-'')"

definition toLowerChar :: "char \<Rightarrow> char" where
  \<comment> \<open>the letters \<open>A-Z\<close> and the capital letters of Latin-1 (\<open>0xC0-0xDE\<close> without the
      multiplication sign \<open>0xD7\<close>) move up by 32\<close>
  "toLowerChar c =
     (if inRange (CHR ''A'') (CHR ''Z'') c
         \<or> (inRange (CHR 0xC0) (CHR 0xDE) c \<and> c \<noteq> CHR 0xD7)
      then char_of (charCode c + 32) else c)"

definition toLowerCase :: "string \<Rightarrow> string" where
  "toLowerCase s = map toLowerChar s"

definition startsWith :: "string \<Rightarrow> string \<Rightarrow> bool" where
  "startsWith s p = prefix p s"

fun strIncludes :: "string \<Rightarrow> string \<Rightarrow> bool" where
  "strIncludes [] p = (p = [])"
| "strIncludes (c # cs) p = (prefix p (c # cs) \<or> strIncludes cs p)"

fun strSplit :: "char \<Rightarrow> string \<Rightarrow> string list" where
  \<comment> \<open>\<open>s.split(sep)\<close> for a one-character separator\<close>
  "strSplit sep [] = [[]]"
| "strSplit sep (c # cs) =
     (if c = sep then [] # strSplit sep cs
      else (case strSplit sep cs of [] \<Rightarrow> [[c]] | p # ps \<Rightarrow> (c # p) # ps))"

definition trimIsEmpty :: "string \<Rightarrow> bool" where
  \<comment> \<open>\<open>line.trim()\<close> is the empty string, which is falsy\<close>
  "trimIsEmpty s = list_all isWhiteSpace s"

definition digitValue :: "char \<Rightarrow> nat" where
  "digitValue c = charCode c - charCode (CHR ''0'')"

definition digitsValue :: "string \<Rightarrow> nat" where
  "digitsValue ds = foldl (\<lambda>n c. 10 * n + digitValue c) 0 ds"

definition isHexDigit :: "char \<Rightarrow> bool" where
  "isHexDigit c =
     (isDigit c \<or> inRange (CHR ''a'') (CHR ''f'') c \<or> inRange (CHR ''A'') (CHR ''F'') c)"

definition hexDigitValue :: "char \<Rightarrow> nat" where
  "hexDigitValue c =
     (if isDigit c then digitValue c
      else if inRange (CHR ''a'') (CHR ''f'') c then charCode c - charCode (CHR ''a'') + 10
      else charCode c - charCode (CHR ''A'') + 10)"

definition hexDigitsValue :: "string \<Rightarrow> nat" where
  "hexDigitsValue ds = foldl (\<lambda>n c. 16 * n + hexDigitValue c) 0 ds"

definition signOf :: "string \<Rightarrow> int \<times> string" where
  \<comment> \<open>the optional sign in front of the digits, and the rest\<close>
  "signOf s =
     (case s of
        [] \<Rightarrow> (1, [])
      | c # r \<Rightarrow> if c = CHR ''-'' then (- 1, r) else if c = CHR ''+'' then (1, r) else (1, s))"

definition parseInt10 :: "string \<Rightarrow> int option" where
  \<comment> \<open>\<open>parseInt(s, 10)\<close>\<close>
  "parseInt10 s =
     (let (sign, rest) = signOf (dropWhile isWhiteSpace s);
          digits = takeWhile isDigit rest
      in if digits = [] then None else Some (sign * int (digitsValue digits)))"

definition parseInt :: "string \<Rightarrow> int option" where
  \<comment> \<open>\<open>parseInt(s)\<close> without a radix: a \<open>0x\<close> or \<open>0X\<close> prefix selects base 16\<close>
  "parseInt s =
     (let (sign, rest) = signOf (dropWhile isWhiteSpace s)
      in if prefix ''0x'' rest \<or> prefix ''0X'' rest then
           (let digits = takeWhile isHexDigit (drop 2 rest)
            in if digits = [] then None else Some (sign * int (hexDigitsValue digits)))
         else
           (let digits = takeWhile isDigit rest
            in if digits = [] then None else Some (sign * int (digitsValue digits))))"

definition numGreater :: "int option \<Rightarrow> int \<Rightarrow> bool" where
  \<comment> \<open>\<open>x > y\<close>: false when \<open>x\<close> is \<open>NaN\<close>\<close>
  "numGreater x y = (case x of None \<Rightarrow> False | Some v \<Rightarrow> v > y)"

definition numLess :: "int option \<Rightarrow> int \<Rightarrow> bool" where
  \<comment> \<open>\<open>x < y\<close>: false when \<open>x\<close> is \<open>NaN\<close>\<close>
  "numLess x y = (case x of None \<Rightarrow> False | Some v \<Rightarrow> v < y)"

definition numEquals :: "int option \<Rightarrow> int \<Rightarrow> bool" where
  \<comment> \<open>\<open>x === y\<close>: false when \<open>x\<close> is \<open>NaN\<close>\<close>
  "numEquals x y = (case x of None \<Rightarrow> False | Some v \<Rightarrow> v = y)"

definition tsv :: "string list \<Rightarrow> string" where
  \<comment> \<open>a line of tab-separated fields, for writing sample inputs\<close>
  "tsv fields = (case fields of [] \<Rightarrow> [] | f # fs \<Rightarrow> f @ concat (map (\<lambda>g. TAB # g) fs))"


section \<open>JavaScript \<open>Map\<close>: keys in insertion order\<close>

type_synonym 'v jsMap = "(string \<times> 'v) list"

definition mapHas :: "'v jsMap \<Rightarrow> string \<Rightarrow> bool" where
  "mapHas m k = (map_of m k \<noteq> None)"

fun mapSet :: "'v jsMap \<Rightarrow> string \<Rightarrow> 'v \<Rightarrow> 'v jsMap" where
  "mapSet [] k v = [(k, v)]"
| "mapSet ((k', v') # m) k v = (if k' = k then (k, v) # m else (k', v') # mapSet m k v)"

definition mapGetOr :: "'v jsMap \<Rightarrow> string \<Rightarrow> 'v \<Rightarrow> 'v" where
  \<comment> \<open>\<open>m.get(k) || d\<close>, for values that are never falsy (arrays)\<close>
  "mapGetOr m k d = (case map_of m k of None \<Rightarrow> d | Some v \<Rightarrow> v)"

definition mapPush :: "'a list jsMap \<Rightarrow> string \<Rightarrow> 'a \<Rightarrow> 'a list jsMap" where
  \<comment> \<open>\<open>m.get(k).push(x)\<close> on a key that is present\<close>
  "mapPush m k x = mapSet m k (mapGetOr m k [] @ [x])"

definition mapKeys :: "'v jsMap \<Rightarrow> string list" where
  "mapKeys m = map fst m"

section \<open>Cookie validity filter\<close>

text \<open>
  \<open>Date.now()\<close> is a reading of the system clock in milliseconds. A pass that reads the
  clock once takes that reading as an argument; the discovery pass reads the clock inside
  its loop, so it takes the sequence of readings (\<open>clk k\<close> is the reading of call number
  \<open>k\<close>) and counts its calls. Nothing inside either loop body can throw, so the
  \<open>try\<close> around each body has no branch in the model.
\<close>

definition cookieLines :: "string \<Rightarrow> string list" where
  \<comment> \<open>\<open>content.split("\n").filter(line => line.trim() && !line.startsWith("#"))\<close>\<close>
  "cookieLines content =
     filter (\<lambda>line. \<not> trimIsEmpty line \<and> \<not> startsWith line ''#'') (strSplit LF content)"

definition cookieDomainKey :: "string \<Rightarrow> string" where
  \<comment> \<open>\<open>parts[0].replace(/^[^\w.-]/, "")\<close>: drops a first character outside \<open>[\w.-]\<close>\<close>
  "cookieDomainKey s = (case s of [] \<Rightarrow> [] | c # r \<Rightarrow> if isDomainChar c then s else r)"

record cookieScan =
  domainCookies :: "string list jsMap"
  validCount :: nat
  expiredCount :: nat
  clockReads :: nat

definition processCookieFile_line :: "(nat \<Rightarrow> int) \<Rightarrow> cookieScan \<Rightarrow> string \<Rightarrow> cookieScan" where
  \<comment> \<open>the body of the loop over the lines of a cookie file\<close>
  "processCookieFile_line clk acc line =
     (let parts = strSplit TAB line in
      if length parts \<ge> 7 then
        (let domain = cookieDomainKey (parts ! 0);
             expiry = parseInt10 (parts ! 4);
             now = clk (clockReads acc) div 1000;
             dc = (if \<not> mapHas (domainCookies acc) domain
                   then mapSet (domainCookies acc) domain [] else domainCookies acc);
             isValid = (numGreater expiry now \<or> numEquals expiry 0)
         in if isValid
            then acc\<lparr>domainCookies := mapPush dc domain line,
                     validCount := validCount acc + 1,
                     clockReads := clockReads acc + 1\<rparr>
            else acc\<lparr>domainCookies := dc,
                     expiredCount := expiredCount acc + 1,
                     clockReads := clockReads acc + 1\<rparr>)
      else acc)"

definition processCookieFile :: "(nat \<Rightarrow> int) \<Rightarrow> nat \<Rightarrow> string \<Rightarrow> cookieScan" where
  \<comment> \<open>the scan of one file, before its groups are stored; \<open>k\<close> clock readings were taken before\<close>
  "processCookieFile clk k content =
     foldl (processCookieFile_line clk)
       \<lparr>domainCookies = [], validCount = 0, expiredCount = 0, clockReads = k\<rparr>
       (cookieLines content)"

record puppeteerCookie =
  cookieName :: string
  cookieValue :: string
  cookieDomain :: string
  cookiePath :: string
  expires :: "int option"
  httpOnly :: bool
  secure :: bool

definition readAndValidateCookies_line :: "int \<Rightarrow> puppeteerCookie list \<Rightarrow> string \<Rightarrow> puppeteerCookie list" where
  \<comment> \<open>the body of the loop; \<open>expires\<close> is \<open>None\<close> for \<open>undefined\<close>\<close>
  "readAndValidateCookies_line now puppeteerCookies line =
     (let parts = strSplit TAB line in
      if length parts \<ge> 7 then
        (let expiry = parseInt10 (parts ! 4) in
         if numGreater expiry now \<or> numEquals expiry 0
         then puppeteerCookies @
                [\<lparr>cookieName = parts ! 5, cookieValue = parts ! 6, cookieDomain = parts ! 0,
                  cookiePath = parts ! 2,
                  expires = (if numGreater expiry 0 then expiry else None),
                  httpOnly = (parts ! 1 = ''TRUE''), secure = (parts ! 3 = ''TRUE'')\<rparr>]
         else puppeteerCookies)
      else puppeteerCookies)"

definition readAndValidateCookies :: "int \<Rightarrow> string \<Rightarrow> puppeteerCookie list" where
  \<comment> \<open>\<open>dateNow\<close> is the one reading of \<open>Date.now()\<close>, taken before the loop\<close>
  "readAndValidateCookies dateNow content =
     (let now = dateNow div 1000
      in foldl (readAndValidateCookies_line now) [] (cookieLines content))"

definition isCookieExpired :: "int \<Rightarrow> string \<Rightarrow> bool" where
  \<comment> \<open>the utility of the v2 checker; \<open>dateNow\<close> is its reading of \<open>Date.now()\<close>\<close>
  "isCookieExpired dateNow cookieLine =
     (let parts = strSplit TAB cookieLine in
      if length parts < 7 then True
      else (let expiry = parseInt (parts ! 4)
            in \<not> numEquals expiry 0 \<and> numLess expiry (dateNow div 1000)))"

section \<open>Artifact parser and cross-reference engine\<close>

text \<open>
  A group is what one file contributes to one domain. The list of a cookie group is the
  field \<open>cookies\<close> in the source and \<open>entries\<close> for the other kinds; \<open>timestamp\<close> is the
  modification time of the file.
\<close>

record 'e artifactGroup =
  source :: string
  entries :: "'e list"
  timestamp :: int

record historyEntry =
  url :: string
  title :: string
  visitCount :: int

record passwordEntry =
  passwordUrl :: string
  username :: string
  hasPassword :: bool

record autofillEntry =
  fieldName :: string
  fieldValue :: string
  autofillUrl :: string

record discoveredData =
  cookiesMap :: "string artifactGroup list jsMap"
  historyMap :: "historyEntry artifactGroup list jsMap"
  passwordsMap :: "passwordEntry artifactGroup list jsMap"
  autofillsMap :: "autofillEntry artifactGroup list jsMap"

definition storeGroups ::
  "'e artifactGroup list jsMap \<Rightarrow> 'e list jsMap \<Rightarrow> string \<Rightarrow> int \<Rightarrow> 'e artifactGroup list jsMap" where
  \<comment> \<open>the loop "Store in main data structure" that ends each \<open>process...File\<close>\<close>
  "storeGroups dataMap perDomain relativePath mtime =
     foldl (\<lambda>m (domain, es).
              mapPush (if \<not> mapHas m domain then mapSet m domain [] else m) domain
                \<lparr>source = relativePath, entries = es, timestamp = mtime\<rparr>)
       dataMap perDomain"

definition historyDomainKey :: "string \<Rightarrow> string" where
  \<comment> \<open>\<open>hostname.replace(/^www[^\w.-]/, "")\<close>: drops \<open>www\<close> and one more character when that
      character is outside \<open>[\w.-]\<close>\<close>
  "historyDomainKey hostname =
     (if prefix ''www'' hostname \<and> length hostname > 3 \<and> \<not> isDomainChar (hostname ! 3)
      then drop 4 hostname else hostname)"

definition historyLines :: "string \<Rightarrow> string list" where
  "historyLines content = filter (\<lambda>line. \<not> trimIsEmpty line) (strSplit LF content)"

definition orOne :: "int option \<Rightarrow> int" where
  \<comment> \<open>\<open>n || 1\<close>: \<open>NaN\<close> and \<open>0\<close> are falsy\<close>
  "orOne n = (case n of None \<Rightarrow> 1 | Some v \<Rightarrow> if v = 0 then 1 else v)"

definition fieldOr :: "string list \<Rightarrow> nat \<Rightarrow> string option" where
  \<comment> \<open>\<open>parts[i]\<close>: \<open>None\<close> for \<open>undefined\<close>\<close>
  "fieldOr parts i = (if i < length parts then Some (parts ! i) else None)"

definition processHistoryFile_line ::
  "(string \<Rightarrow> string option) \<Rightarrow> historyEntry list jsMap \<times> nat \<Rightarrow> string
     \<Rightarrow> historyEntry list jsMap \<times> nat" where
  \<comment> \<open>the body of the loop; \<open>hostnameOf u\<close> is \<open>new URL(u).hostname\<close> of the platform, \<open>None\<close>
      when the constructor throws (the line is then skipped by the \<open>catch\<close>)\<close>
  "processHistoryFile_line hostnameOf acc line =
     (let (domainHistory, urlCount) = acc;
          parts = strSplit TAB line;
          u = parts ! 0 in
      if length parts \<ge> 1 \<and> startsWith u ''http'' then
        (case hostnameOf u of
           None \<Rightarrow> acc
         | Some hostname \<Rightarrow>
             (let domain = historyDomainKey hostname;
                  dh = (if \<not> mapHas domainHistory domain
                        then mapSet domainHistory domain [] else domainHistory)
              in (mapPush dh domain
                    \<lparr>url = u,
                     title = (case fieldOr parts 1 of None \<Rightarrow> [] | Some t \<Rightarrow> t),
                     visitCount = orOne (case fieldOr parts 2 of None \<Rightarrow> None | Some v \<Rightarrow> parseInt v)\<rparr>,
                  urlCount + 1)))
      else acc)"

definition processHistoryFile ::
  "(string \<Rightarrow> string option) \<Rightarrow> string \<Rightarrow> historyEntry list jsMap \<times> nat" where
  "processHistoryFile hostnameOf content =
     foldl (processHistoryFile_line hostnameOf) ([], 0) (historyLines content)"

definition highValueDomains :: "string list" where
  "highValueDomains =
     [''vancity.com'', ''td.com'', ''rbc.com'', ''bmo.com'', ''scotiabank.com'',
      ''americanexpress.com'', ''capitalone.com'', ''visa.com'', ''mastercard.com'',
      ''gmail.com'', ''google.com'', ''outlook.com'', ''hotmail.com'',
      ''linkedin.com'', ''facebook.com'', ''twitter.com'', ''x.com'',
      ''paypal.com'', ''amazon.com'', ''walmart.com'', ''costco.ca'']"

definition authPatterns :: "string list" where
  "authPatterns =
     [''/dashboard'', ''/profile'', ''/account'', ''/settings'', ''/my-account'',
      ''/home'', ''/feed'', ''/inbox'', ''/messages'', ''/notifications'',
      ''/balance'', ''/transactions'', ''/statements'', ''/portfolio'',
      ''/admin'', ''/user'', ''/member'', ''/secure'', ''/private'']"

definition isAuthenticatedUrl :: "string \<Rightarrow> bool" where
  \<comment> \<open>\<open>authPatterns.some(pattern => url.toLowerCase().includes(pattern))\<close>\<close>
  "isAuthenticatedUrl u = list_ex (\<lambda>pattern. strIncludes (toLowerCase u) pattern) authPatterns"

record domainAnalysis =
  hasCookies :: bool
  hasHistory :: bool
  hasPasswords :: bool
  hasAutofills :: bool
  totalCookies :: nat
  totalHistoryEntries :: nat
  totalPasswords :: nat
  totalAutofills :: nat
  authenticatedEndpoints :: "historyEntry list"
  highValue :: bool
  crossReferenceScore :: nat

record domainData =
  domain :: string
  cookies :: "string artifactGroup list"
  history :: "historyEntry artifactGroup list"
  passwords :: "passwordEntry artifactGroup list"
  autofills :: "autofillEntry artifactGroup list"
  analysis :: domainAnalysis

definition totalEntries :: "'e artifactGroup list \<Rightarrow> nat" where
  \<comment> \<open>\<open>groups.reduce((sum, g) => sum + g.entries.length, 0)\<close>\<close>
  "totalEntries groups = foldl (\<lambda>sum g. sum + length (entries g)) 0 groups"

definition authenticatedUrls :: "historyEntry artifactGroup list \<Rightarrow> historyEntry list" where
  \<comment> \<open>the two nested loops that collect the history entries with an authenticated URL\<close>
  "authenticatedUrls groups =
     foldl (\<lambda>acc historyGroup.
              foldl (\<lambda>acc' entry. if isAuthenticatedUrl (url entry) then acc' @ [entry] else acc')
                acc (entries historyGroup))
       [] groups"

definition topEndpoints :: "historyEntry list \<Rightarrow> historyEntry list" where
  \<comment> \<open>\<open>.sort((a, b) => b.visitCount - a.visitCount).slice(0, 5)\<close>; the sort is stable\<close>
  "topEndpoints es = take 5 (sort_key (\<lambda>e. - visitCount e) es)"

definition scoreOf :: "domainAnalysis \<Rightarrow> nat" where
  \<comment> \<open>"Calculate cross-reference score"\<close>
  "scoreOf a =
     (let score = 0;
          score = (if hasCookies a then score + 40 else score);
          score = (if hasHistory a then score + 20 else score);
          score = (if hasPasswords a then score + 25 else score);
          score = (if hasAutofills a then score + 15 else score);
          score = (if highValue a then score + 20 else score);
          score = (if length (authenticatedEndpoints a) > 0 then score + 30 else score)
      in min score 100)"

definition analyzeDiscoveredData_domain :: "discoveredData \<Rightarrow> string \<Rightarrow> domainData" where
  \<comment> \<open>the body of the loop over \<open>allDomains\<close>\<close>
  "analyzeDiscoveredData_domain dd d =
     (let cs = mapGetOr (cookiesMap dd) d [];
          hs = mapGetOr (historyMap dd) d [];
          ps = mapGetOr (passwordsMap dd) d [];
          as = mapGetOr (autofillsMap dd) d [];
          a = \<lparr>hasCookies = mapHas (cookiesMap dd) d,
               hasHistory = mapHas (historyMap dd) d,
               hasPasswords = mapHas (passwordsMap dd) d,
               hasAutofills = mapHas (autofillsMap dd) d,
               totalCookies = (if length cs > 0 then totalEntries cs else 0),
               totalHistoryEntries = (if length hs > 0 then totalEntries hs else 0),
               totalPasswords = (if length ps > 0 then totalEntries ps else 0),
               totalAutofills = (if length as > 0 then totalEntries as else 0),
               authenticatedEndpoints =
                 (if length hs > 0 then topEndpoints (authenticatedUrls hs) else []),
               highValue = (d \<in> set highValueDomains),
               crossReferenceScore = 0\<rparr>
      in \<lparr>domain = d, cookies = cs, history = hs, passwords = ps, autofills = as,
           analysis = a\<lparr>crossReferenceScore := scoreOf a\<rparr>\<rparr>)"

definition allDomains :: "discoveredData \<Rightarrow> string list" where
  \<comment> \<open>the \<open>Set\<close> of the keys of the four maps, in insertion order\<close>
  "allDomains dd =
     foldl (\<lambda>seen d. if d \<in> set seen then seen else seen @ [d]) []
       (mapKeys (cookiesMap dd) @ mapKeys (historyMap dd)
        @ mapKeys (passwordsMap dd) @ mapKeys (autofillsMap dd))"

definition analyzeDiscoveredData :: "discoveredData \<Rightarrow> domainData jsMap" where
  "analyzeDiscoveredData dd =
     foldl (\<lambda>crossReferencedData d.
              mapSet crossReferencedData d (analyzeDiscoveredData_domain dd d))
       [] (allDomains dd)"

text \<open>
  The reading of the specification for authenticated endpoints: a URL is one when a
  segment of its path, written with its leading slash, is a member of the pattern set.
\<close>

definition specPathSegments :: "string \<Rightarrow> string list" where
  "specPathSegments u =
     (let rest = (if prefix ''https://'' u then drop 8 u
                  else if prefix ''http://'' u then drop 7 u else u);
          path = dropWhile (\<lambda>c. c \<noteq> CHR ''/'')
                   (takeWhile (\<lambda>c. c \<noteq> CHR ''?'' \<and> c \<noteq> CHR ''#'') rest)
      in map (\<lambda>seg. CHR ''/'' # seg) (tl (strSplit (CHR ''/'') path)))"

definition specAuthenticatedUrl :: "string \<Rightarrow> bool" where
  "specAuthenticatedUrl u = list_ex (\<lambda>seg. seg \<in> set authPatterns) (specPathSegments u)"

section \<open>Session classifier\<close>

definition loginKeywords :: "string list" where
  "loginKeywords =
     [''sign in'', ''log in'', ''login'', ''password'', ''forgot password'',
      ''enter your password'', ''authentication'', ''two-factor'', ''2fa'',
      ''create account'', ''register'', ''signin'', ''sign up'']"

definition loggedInKeywords :: "string list" where
  "loggedInKeywords =
     [''dashboard'', ''profile'', ''settings'', ''account'', ''logout'', ''sign out'',
      ''welcome'', ''my account'', ''notifications'', ''messages'', ''balance'',
      ''transaction'', ''statement'', ''portfolio'', ''investment'', ''inbox'',
      ''compose'', ''upload'', ''post'', ''timeline'', ''feed'']"

record indicators =
  hasLogoutButton :: bool
  hasWelcomeMessage :: bool
  hasPersonalInfo :: bool
  hasAuthenticatedContent :: bool

record detection =
  loggedInScore :: nat
  loginScore :: nat
  confidence :: int
  isLoggedIn :: bool
  status :: string
  indicators :: indicators

definition keywordScore :: "string list \<Rightarrow> string \<Rightarrow> string \<Rightarrow> string \<Rightarrow> nat" where
  \<comment> \<open>one of the two loops over a keyword list, counting the keywords found in the
      lowercased markup, title or URL\<close>
  "keywordScore keywords htmlLower titleLower urlLower =
     foldl (\<lambda>score keyword.
              if strIncludes htmlLower keyword \<or> strIncludes titleLower keyword
                 \<or> strIncludes urlLower keyword
              then score + 1 else score)
       0 keywords"

text \<open>
  The confidence is computed in exact rational arithmetic. The scores are small natural
  numbers (at most 31 and 13), the quotient \<open>1000 * a / (10 * (a + b) + 1)\<close> is never
  half-way between two integers (its denominator is odd), and its distance to the nearest
  half-way point is far above the rounding error of the double computation, so
  \<open>Math.round\<close> returns the same integer. \<open>Math.round\<close> rounds half-way cases up, as
  \<^const>\<open>round\<close> does.
\<close>

definition performDetectionAnalysis :: "string \<Rightarrow> string \<Rightarrow> string \<Rightarrow> detection" where
  "performDetectionAnalysis html pageTitle pageUrl =
     (let htmlLower = toLowerCase html;
          titleLower = toLowerCase pageTitle;
          urlLower = toLowerCase pageUrl;
          loggedInScore = keywordScore loggedInKeywords htmlLower titleLower urlLower;
          loginScore = keywordScore loginKeywords htmlLower titleLower urlLower;
          hasLogoutButton = (strIncludes htmlLower ''logout'' \<or> strIncludes htmlLower ''sign out'');
          hasWelcomeMessage = (strIncludes htmlLower ''welcome'' \<or> strIncludes htmlLower ''hello'');
          hasPersonalInfo = (strIncludes htmlLower ''profile'' \<or> strIncludes htmlLower ''account'');
          hasAuthenticatedContent =
            (strIncludes htmlLower ''dashboard'' \<or> strIncludes htmlLower ''inbox'');
          loggedInScore = (if hasLogoutButton then loggedInScore + 3 else loggedInScore);
          loggedInScore = (if hasWelcomeMessage then loggedInScore + 2 else loggedInScore);
          loggedInScore = (if hasPersonalInfo then loggedInScore + 2 else loggedInScore);
          loggedInScore = (if hasAuthenticatedContent then loggedInScore + 3 else loggedInScore);
          totalIndicators = (of_nat loggedInScore + of_nat loginScore + 1 / 10 :: rat);
          confidence = round ((of_nat loggedInScore / totalIndicators) * 100);
          isLoggedIn = (confidence \<ge> 60)
      in \<lparr>loggedInScore = loggedInScore, loginScore = loginScore, confidence = confidence,
           isLoggedIn = isLoggedIn,
           status = (if isLoggedIn then ''LOGGED_IN'' else ''NOT_LOGGED_IN''),
           indicators = \<lparr>hasLogoutButton = hasLogoutButton,
                          hasWelcomeMessage = hasWelcomeMessage,
                          hasPersonalInfo = hasPersonalInfo,
                          hasAuthenticatedContent = hasAuthenticatedContent\<rparr>\<rparr>)"

definition keywordMatches :: "string list \<Rightarrow> string \<Rightarrow> string \<Rightarrow> string \<Rightarrow> string list" where
  \<comment> \<open>the keywords of a list that occur in the lowercased markup, title or URL\<close>
  "keywordMatches keywords html pageTitle pageUrl =
     filter (\<lambda>keyword. strIncludes (toLowerCase html) keyword
                \<or> strIncludes (toLowerCase pageTitle) keyword
                \<or> strIncludes (toLowerCase pageUrl) keyword) keywords"

section \<open>Result aggregator\<close>

text \<open>
  A test leaves one of two kinds of record in the result list: the record of a completed
  test, which carries a \<open>detection\<close>, or the record of an error, whose \<open>status\<close> is
  \<open>"ERROR"\<close>.
\<close>

datatype testResult =
    TestCompleted (resultDomain: string) (cookieCount: nat) (injectionTime: int)
      (testUrl: string) (actualUrl: string) (resultDetection: detection)
  | TestError (resultDomain: string) (errorMessage: string)

datatype jsNumber = Num rat | Infinity | NaN

definition jsDivide :: "nat \<Rightarrow> nat \<Rightarrow> jsNumber" where
  \<comment> \<open>\<open>a / b\<close> on two array lengths: \<open>0 / 0\<close> is \<open>NaN\<close>\<close>
  "jsDivide a b =
     (if b = 0 then (if a = 0 then NaN else Infinity) else Num (of_nat a / of_nat b))"

definition jsTimes :: "jsNumber \<Rightarrow> rat \<Rightarrow> jsNumber" where
  \<comment> \<open>\<open>x * c\<close> for a positive constant \<open>c\<close>\<close>
  "jsTimes x c = (case x of Num q \<Rightarrow> Num (q * c) | Infinity \<Rightarrow> Infinity | NaN \<Rightarrow> NaN)"

definition successfulResults :: "testResult list \<Rightarrow> testResult list" where
  \<comment> \<open>\<open>results.filter(r => r.detection?.isLoggedIn)\<close>\<close>
  "successfulResults results =
     filter (\<lambda>r. case r of TestCompleted _ _ _ _ _ d \<Rightarrow> isLoggedIn d | TestError _ _ \<Rightarrow> False) results"

definition failedResults :: "testResult list \<Rightarrow> testResult list" where
  \<comment> \<open>\<open>results.filter(r => r.detection && !r.detection.isLoggedIn)\<close>\<close>
  "failedResults results =
     filter (\<lambda>r. case r of TestCompleted _ _ _ _ _ d \<Rightarrow> \<not> isLoggedIn d | TestError _ _ \<Rightarrow> False) results"

definition errorResults :: "testResult list \<Rightarrow> testResult list" where
  \<comment> \<open>\<open>results.filter(r => r.status === "ERROR")\<close>\<close>
  "errorResults results =
     filter (\<lambda>r. case r of TestCompleted _ _ _ _ _ _ \<Rightarrow> False | TestError _ _ \<Rightarrow> True) results"

record summary =
  totalTested :: nat
  successful :: nat
  failed :: nat
  errors :: nat
  successRate :: jsNumber

definition saveTestResults :: "testResult list \<Rightarrow> summary" where
  \<comment> \<open>the summary that is written to the summary file; \<open>successRate\<close> is the number that
      is then formatted by \<open>toFixed(1)\<close> and followed by a percent sign (\<open>NaN\<close> is
      formatted as \<open>"NaN"\<close>)\<close>
  "saveTestResults results =
     \<lparr>totalTested = length results,
      successful = length (successfulResults results),
      failed = length (failedResults results),
      errors = length (errorResults results),
      successRate =
        jsTimes (jsDivide (length (successfulResults results))
                   (length results - length (errorResults results))) 100\<rparr>"

section \<open>T-1 timing controller\<close>

text \<open>
  The test loop talks to a browser and to the file system. Their answers are the fields of
  an environment: a call that can throw answers with the message of the error. Every
  \<open>await\<close> is a suspension point; it takes the time it asks for (the delay of a timer,
  nothing for a driver call or for the return of an \<open>async\<close> method) plus a lag chosen
  by the environment. The world holds the clock in milliseconds, the number of suspensions
  so far, the injection statistics and the trace: the progress messages of the test with
  the clock reading at which each is issued. The event \<open>NavigationStart\<close> is the call of
  \<open>page.goto\<close>.
\<close>

definition t_minus_1_delay :: int where "t_minus_1_delay = 2000"
definition injection_delay :: int where "injection_delay = 500"
definition navigation_delay :: int where "navigation_delay = 1000"
definition analysis_delay :: int where "analysis_delay = 3000"

datatype event =
    T1Preparing
  | CookiesPrepared nat
  | Injecting
  | InjectionComplete
  | NavigationReady
  | InjectionTimed int
  | NavigationStart string
  | SessionAnalyzed int
  | TestFailed string

record env =
  lag :: "nat \<Rightarrow> nat"
  preparedDir :: string
  readdirSync :: "string list option"
  launchSystemChrome :: "string option"
  launchBundledChrome :: "string option"
  readFileSync :: "string \<Rightarrow> string + string"
  newPage :: "string \<Rightarrow> string option"
  setCookie :: "string \<Rightarrow> puppeteerCookie list \<Rightarrow> string option"
  goto :: "string \<Rightarrow> string option"
  pageContent :: "string \<Rightarrow> string + string"
  pageTitle :: "string \<Rightarrow> string + string"
  pageUrl :: "string \<Rightarrow> string"
  saveVerifiedSession :: "string \<Rightarrow> string option"
  screenshot :: "string \<Rightarrow> string option"
  closePage :: "string \<Rightarrow> string option"

text \<open>
  In the environment, \<open>lag k\<close> is the extra time of suspension number \<open>k\<close>;
  \<open>readdirSync\<close> lists the directory of prepared cookies and is \<open>None\<close> when the directory
  does not exist; a driver call or a launch answers \<open>None\<close> when it succeeds and
  \<open>Some msg\<close> when it throws \<open>Error(msg)\<close>; a read answers \<open>Inr\<close> with the text and
  \<open>Inl msg\<close> when it throws. The calls are keyed by the domain under test, by the path
  read or by the URL visited.
\<close>

record world =
  clock :: int
  suspensions :: nat
  trace :: "(int \<times> event) list"
  totalDomains :: nat
  successfulInjections :: nat
  averageInjectionTime :: rat

definition await :: "env \<Rightarrow> int \<Rightarrow> world \<Rightarrow> world" where
  \<comment> \<open>a suspension point that takes at least \<open>ms\<close> milliseconds\<close>
  "await e ms w =
     w\<lparr>clock := clock w + ms + int (lag e (suspensions w)), suspensions := suspensions w + 1\<rparr>"

definition logEvent :: "event \<Rightarrow> world \<Rightarrow> world" where
  "logEvent ev w = w\<lparr>trace := trace w @ [(clock w, ev)]\<rparr>"

record injectionResult =
  injectedDomain :: string
  injectedCookieCount :: nat
  injectedTime :: int

definition injectCookiesWithT1Timing ::
  "env \<Rightarrow> string \<Rightarrow> string \<Rightarrow> world \<Rightarrow> (string + injectionResult) \<times> world" where
  "injectCookiesWithT1Timing e cookieFilePath d w =
     (let startTime = clock w;
          w = logEvent T1Preparing w;
          w = await e t_minus_1_delay w;
          dateNow = clock w;
          w = await e 0 w
      in case readFileSync e cookieFilePath of
           Inl msg \<Rightarrow> (Inl msg, w)
         | Inr content \<Rightarrow>
             (let cookies = readAndValidateCookies dateNow content in
              if length cookies = 0 then (Inl (''No valid cookies found for '' @ d), w)
              else
                (let w = logEvent (CookiesPrepared (length cookies)) w;
                     w = logEvent Injecting w;
                     w = await e 0 w
                 in case setCookie e d cookies of
                      Some msg \<Rightarrow> (Inl msg, w)
                    | None \<Rightarrow>
                        (let w = await e injection_delay w;
                             w = logEvent InjectionComplete w;
                             w = logEvent NavigationReady w;
                             w = await e navigation_delay w;
                             injectionTime = clock w - startTime;
                             n = totalDomains w + 1;
                             w = w\<lparr>totalDomains := n,
                                   successfulInjections := successfulInjections w + 1,
                                   averageInjectionTime :=
                                     (averageInjectionTime w * of_nat (n - 1) + of_int injectionTime)
                                     / of_nat n\<rparr>;
                             w = logEvent (InjectionTimed injectionTime) w
                         in (Inr \<lparr>injectedDomain = d, injectedCookieCount = length cookies,
                                  injectedTime = injectionTime\<rparr>, w)))))"

fun matchUrlAt :: "string \<Rightarrow> string option" where
  \<comment> \<open>a match of \<open>/https?:[^\w.-][^\w.-][^\s)]+/\<close> that starts at the first character\<close>
  "matchUrlAt s =
     (if prefix ''http'' s then
        (let r = drop 4 s;
             (scheme, r) = (if prefix ''s'' r then (''https'', drop 1 r) else (''http'', r))
         in case r of
              c0 # c1 # c2 # r' \<Rightarrow>
                (let body = takeWhile (\<lambda>c. \<not> isWhiteSpace c \<and> c \<noteq> CHR '')'') r'
                 in if c0 = CHR '':'' \<and> \<not> isDomainChar c1 \<and> \<not> isDomainChar c2 \<and> body \<noteq> []
                    then Some (scheme @ [c0, c1, c2] @ body) else None)
            | _ \<Rightarrow> None)
      else None)"

fun matchUrl :: "string \<Rightarrow> string option" where
  \<comment> \<open>\<open>line.match(...)\<close>: the leftmost match\<close>
  "matchUrl [] = None"
| "matchUrl (c # cs) =
     (case matchUrlAt (c # cs) of Some m \<Rightarrow> Some m | None \<Rightarrow> matchUrl cs)"

definition headerEndpoint :: "string list \<Rightarrow> string option" where
  \<comment> \<open>the loop over the lines of the cookie file that looks for an endpoint in the header\<close>
  "headerEndpoint ls =
     (case List.map_filter
             (\<lambda>line. if startsWith line ''# - '' \<and> strIncludes line ''http''
                      then matchUrl line else None) ls of
        [] \<Rightarrow> None
      | m # _ \<Rightarrow> Some m)"

definition domainTestUrls :: "(string \<times> string) list" where
  \<comment> \<open>the chain of \<open>if (domainLower.includes(...)) return ...\<close>, in its order\<close>
  "domainTestUrls =
     [(''vancity'', ''https://banking.vancity.com/''),
      (''americanexpress'', ''https://global.americanexpress.com/myca/''),
      (''capitalone'', ''https://myaccounts.capitalone.com/''),
      (''td.com'', ''https://easyweb.td.com/''),
      (''rbc'', ''https://www1.royalbank.com/cgi-bin/rbaccess/rbunxcgi?F6=1&F7=IB&F21=IB&F22=1&REQUEST=ClientSignin''),
      (''bmo'', ''https://www1.bmo.com/banking/digital/login''),
      (''gmail'', ''https://mail.google.com/''),
      (''google'', ''https://mail.google.com/''),
      (''linkedin'', ''https://www.linkedin.com/feed/''),
      (''facebook'', ''https://www.facebook.com/''),
      (''amazon'', ''https://www.amazon.com/your-account''),
      (''walmart'', ''https://www.walmart.ca/account'')]"

definition determineTestUrl :: "string \<Rightarrow> string \<Rightarrow> string" where
  \<comment> \<open>\<open>content\<close> is the text of the cookie file\<close>
  "determineTestUrl content d =
     (case headerEndpoint (strSplit LF content) of
        Some u \<Rightarrow> u
      | None \<Rightarrow>
          (case find (\<lambda>(needle, u). strIncludes (toLowerCase d) needle) domainTestUrls of
             Some (needle, u) \<Rightarrow> u
           | None \<Rightarrow> ''https://'' @ cookieDomainKey d @ ''/''))"

definition analyzeSession ::
  "env \<Rightarrow> string \<Rightarrow> string \<Rightarrow> world \<Rightarrow> (string + string \<times> detection) \<times> world" where
  \<comment> \<open>returns the final URL and the verdict; the other fields of the analysis record (title,
      time stamp, page metrics) take no part in a decision\<close>
  "analyzeSession e d tUrl w =
     (let startTime = clock w;
          w = await e analysis_delay w;
          w = await e 0 w
      in case pageContent e tUrl of
           Inl msg \<Rightarrow> (Inl msg, w)
         | Inr html \<Rightarrow>
             (let w = await e 0 w
              in case pageTitle e tUrl of
                   Inl msg \<Rightarrow> (Inl msg, w)
                 | Inr ttl \<Rightarrow>
                     (let w = await e 0 w;
                          det = performDetectionAnalysis html ttl (pageUrl e tUrl);
                          w = logEvent (SessionAnalyzed (confidence det)) w
                      in (Inr (pageUrl e tUrl, det), w))))"

record cookieFile =
  fileName :: string
  path :: string

definition domainOfFile :: "string \<Rightarrow> string" where
  \<comment> \<open>\<open>path.basename(file, ".txt").replace(/_/g, ".")\<close> for a file name that ends in
      \<open>.txt\<close>\<close>
  "domainOfFile f = map (\<lambda>c. if c = CHR ''_'' then CHR ''.'' else c) (take (length f - 4) f)"

definition runAutoTestingMode_try ::
  "env \<Rightarrow> cookieFile \<Rightarrow> string \<Rightarrow> testResult list \<Rightarrow> world
     \<Rightarrow> (string + unit) \<times> testResult list \<times> world" where
  \<comment> \<open>the \<open>try\<close> block of one test: \<open>Inl msg\<close> when it throws \<open>Error(msg)\<close>\<close>
  "runAutoTestingMode_try e cf d results w =
     (let w = await e 0 w in
      case newPage e d of
        Some msg \<Rightarrow> (Inl msg, results, w)
      | None \<Rightarrow>
          (case injectCookiesWithT1Timing e (path cf) d w of
             (Inl msg, w) \<Rightarrow> (Inl msg, results, await e 0 w)
           | (Inr injection, w) \<Rightarrow>
               (case readFileSync e (path cf) of
                  Inl msg \<Rightarrow> (Inl msg, results, await e 0 (await e 0 w))
                | Inr content \<Rightarrow>
                    (let w = await e 0 (await e 0 w);
                         tUrl = determineTestUrl content d;
                         w = logEvent (NavigationStart tUrl) w;
                         w = await e 0 w
                     in case goto e tUrl of
                          Some msg \<Rightarrow> (Inl msg, results, w)
                        | None \<Rightarrow>
                            (case analyzeSession e d tUrl w of
                               (Inl msg, w) \<Rightarrow> (Inl msg, results, await e 0 w)
                             | (Inr (finalUrl, det), w) \<Rightarrow>
                                 (let w = await e 0 w;
                                      result = TestCompleted d (injectedCookieCount injection)
                                                 (injectedTime injection) tUrl finalUrl det;
                                      results = results @ [result]
                                  in if isLoggedIn det then
                                       (let w = await e 0 w in
                                        case saveVerifiedSession e d of
                                          Some msg \<Rightarrow> (Inl msg, results, w)
                                        | None \<Rightarrow>
                                            (let w = await e 0 w in
                                             case screenshot e d of
                                               Some msg \<Rightarrow> (Inl msg, results, w)
                                             | None \<Rightarrow>
                                                 (let w = await e 0 w in
                                                  case closePage e d of
                                                    Some msg \<Rightarrow> (Inl msg, results, w)
                                                  | None \<Rightarrow> (Inr (), results, w))))
                                     else
                                       (let w = await e 0 w in
                                        case closePage e d of
                                          Some msg \<Rightarrow> (Inl msg, results, w)
                                        | None \<Rightarrow> (Inr (), results, w))))))))"

definition runAutoTestingMode_test ::
  "env \<Rightarrow> cookieFile \<Rightarrow> testResult list \<times> world \<Rightarrow> testResult list \<times> world" where
  \<comment> \<open>the body of the loop over the cookie files: the \<open>try\<close> block, its \<open>catch\<close>, and the
      delay between tests\<close>
  "runAutoTestingMode_test e cf st =
     (let (results, w) = st;
          d = domainOfFile (fileName cf)
      in case runAutoTestingMode_try e cf d results w of
           (Inl msg, results, w) \<Rightarrow>
             (results @ [TestError d msg], await e 2000 (logEvent (TestFailed msg) w))
         | (Inr u, results, w) \<Rightarrow> (results, await e 2000 w))"

definition testLoop :: "env \<Rightarrow> cookieFile list \<Rightarrow> testResult list \<times> world \<Rightarrow> testResult list \<times> world" where
  \<comment> \<open>\<open>for (const cookieFile of cookieFiles) { ... }\<close>\<close>
  "testLoop e cookieFiles st = foldl (\<lambda>st cf. runAutoTestingMode_test e cf st) st cookieFiles"

datatype runOutcome =
    NothingToTest
  | LaunchFailed string
  | RunFinished "testResult list" summary

definition runAutoTestingMode :: "env \<Rightarrow> world \<Rightarrow> runOutcome \<times> world" where
  \<comment> \<open>\<open>NothingToTest\<close> is one of the two early returns; \<open>LaunchFailed\<close> is the error that
      leaves the function when neither launch succeeds\<close>
  "runAutoTestingMode e w =
     (case readdirSync e of
        None \<Rightarrow> (NothingToTest, w)
      | Some names \<Rightarrow>
          (let cookieFiles =
                 map (\<lambda>f. \<lparr>fileName = f, path = preparedDir e @ ''/'' @ f\<rparr>)
                   (filter (\<lambda>f. suffix ''.txt'' f) names)
           in if length cookieFiles = 0 then (NothingToTest, w)
              else
                (let w = await e 0 w in
                 case (case launchSystemChrome e of
                         None \<Rightarrow> (None, w)
                       | Some primary \<Rightarrow> (launchBundledChrome e, await e 0 w)) of
                   (Some fallbackError, w) \<Rightarrow> (LaunchFailed fallbackError, w)
                 | (None, w) \<Rightarrow>
                     (let (results, w) = testLoop e cookieFiles ([], w);
                          w = await e 0 (await e 0 (await e 0 w))
                      in (RunFinished results (saveTestResults results), w)))))"

definition testTrace :: "env \<Rightarrow> cookieFile \<Rightarrow> testResult list \<times> world \<Rightarrow> (int \<times> event) list" where
  \<comment> \<open>the events of one test cycle\<close>
  "testTrace e cf st =
     drop (length (trace (snd st))) (trace (snd (runAutoTestingMode_test e cf st)))"

fun firstTime :: "(event \<Rightarrow> bool) \<Rightarrow> (int \<times> event) list \<Rightarrow> int option" where
  \<comment> \<open>the time stamp of the first event of a kind\<close>
  "firstTime P [] = None"
| "firstTime P ((t, ev) # tr) = (if P ev then Some t else firstTime P tr)"

definition isNavigationStart :: "event \<Rightarrow> bool" where
  "isNavigationStart ev = (case ev of NavigationStart u \<Rightarrow> True | _ \<Rightarrow> False)"

definition isInjectionComplete :: "event \<Rightarrow> bool" where
  "isInjectionComplete ev = (ev = InjectionComplete)"

definition t1Ordered :: "(int \<times> event) list \<Rightarrow> bool" where
  \<comment> \<open>the ordering invariant: a trace with a navigation has an injection-complete event
      with a time stamp strictly below that of the first navigation start\<close>
  "t1Ordered tr =
     (case firstTime isNavigationStart tr of
        None \<Rightarrow> True
      | Some tn \<Rightarrow>
          (case firstTime isInjectionComplete tr of None \<Rightarrow> False | Some ti \<Rightarrow> ti < tn))"

section \<open>Sample inputs\<close>

definition sampleCookieLine :: "string \<Rightarrow> string \<Rightarrow> string" where
  \<comment> \<open>a cookie line for the given domain and expiry field\<close>
  "sampleCookieLine d expiry = tsv [d, ''TRUE'', ''/'', ''FALSE'', expiry, ''sid'', ''abc'']"

definition sampleData :: discoveredData where
  \<comment> \<open>one domain seen in all four kinds of artifact\<close>
  "sampleData =
     \<lparr>cookiesMap =
        [(''gmail.com'', [\<lparr>source = ''Cookies.txt'', entries = [sampleCookieLine ''gmail.com'' ''0''],
                          timestamp = 0\<rparr>])],
      historyMap =
        [(''gmail.com'', [\<lparr>source = ''History.txt'',
                          entries = [\<lparr>url = ''https://gmail.com/Inbox'', title = ''Mail'',
                                      visitCount = 3\<rparr>],
                          timestamp = 0\<rparr>])],
      passwordsMap =
        [(''gmail.com'', [\<lparr>source = ''Passwords.txt'',
                          entries = [\<lparr>passwordUrl = ''https://gmail.com/'', username = ''u'',
                                      hasPassword = True\<rparr>],
                          timestamp = 0\<rparr>])],
      autofillsMap =
        [(''gmail.com'', [\<lparr>source = ''Autofills.txt'',
                          entries = [\<lparr>fieldName = ''email'', fieldValue = ''u'',
                                      autofillUrl = ''https://gmail.com/''\<rparr>],
                          timestamp = 0\<rparr>])]\<rparr>"

definition sampleEnv :: "string \<Rightarrow> env" where
  \<comment> \<open>an environment in which every call succeeds and nothing takes longer than asked; the
      directory holds the cookie files of two domains, the first with the given text and
      the second with one session cookie; every page shows a logout link\<close>
  "sampleEnv firstContent =
     \<lparr>lag = (\<lambda>k. 0),
      preparedDir = ''prepared_cookies'',
      readdirSync = Some [''a_example.txt'', ''b_example.txt''],
      launchSystemChrome = None,
      launchBundledChrome = None,
      readFileSync = (\<lambda>p. if p = ''prepared_cookies/a_example.txt'' then Inr firstContent
                           else Inr (sampleCookieLine ''b.example'' ''0'')),
      newPage = (\<lambda>d. None),
      setCookie = (\<lambda>d cs. None),
      goto = (\<lambda>u. None),
      pageContent = (\<lambda>u. Inr ''Logout''),
      pageTitle = (\<lambda>u. Inr ''Home''),
      pageUrl = (\<lambda>u. u),
      saveVerifiedSession = (\<lambda>d. None),
      screenshot = (\<lambda>d. None),
      closePage = (\<lambda>d. None)\<rparr>"

definition sampleWorld :: world where
  "sampleWorld =
     \<lparr>clock = 1700000000000, suspensions = 0, trace = [], totalDomains = 0,
      successfulInjections = 0, averageInjectionTime = 0\<rparr>"

definition sampleCookieFile :: cookieFile where
  "sampleCookieFile = \<lparr>fileName = ''a_example.txt'', path = ''prepared_cookies/a_example.txt''\<rparr>"

definition sampleEnvNavigates :: env where
  \<comment> \<open>the first domain has one session cookie; the capture of the page fails after the
      navigation\<close>
  "sampleEnvNavigates =
     (sampleEnv (sampleCookieLine ''a.example'' ''0''))\<lparr>pageContent := (\<lambda>u. Inl ''Target closed'')\<rparr>"

definition sampleEnvInjectionFails :: env where
  \<comment> \<open>the first domain has one session cookie and \<open>setCookie\<close> throws\<close>
  "sampleEnvInjectionFails =
     (sampleEnv (sampleCookieLine ''a.example'' ''0''))\<lparr>setCookie := (\<lambda>d cs. Some ''Protocol error'')\<rparr>"

section \<open>Properties of the cookie validity filter\<close>

lemma map_of_mapSet: "map_of (mapSet m k v) = (map_of m)(k \<mapsto> v)"
  by (induction m k v rule: mapSet.induct) auto

lemma mapGetOr_mapSet_new:
  "\<not> mapHas m k \<Longrightarrow> mapGetOr (mapSet m k []) d [] = mapGetOr m d []"
  by (simp add: mapGetOr_def mapHas_def map_of_mapSet)

lemma sampleCookieLine_fields:
  "7 \<le> length (strSplit TAB (sampleCookieLine ''a.example'' ''1000''))"
  "parseInt10 (strSplit TAB (sampleCookieLine ''a.example'' ''1000'') ! 4) = Some 1000"
  "parseInt (strSplit TAB (sampleCookieLine ''a.example'' ''1000'') ! 4) = Some 1000"
  "7 \<le> length (strSplit TAB (sampleCookieLine ''a.example'' ''never''))"
  "parseInt10 (strSplit TAB (sampleCookieLine ''a.example'' ''never'') ! 4) = None"
  by code_simp+

text \<open>
  What the three filters accept, for a cookie line (seven fields or more) whose expiry
  field parses to the number \<open>e\<close>: the discovery pass of the v3 checker counts the line as
  valid exactly when \<open>e = 0\<close> or \<open>e > now\<close>, and as expired otherwise, with \<open>now\<close> the
  clock reading it takes for that line; the injection pass of the v3 checker adds the
  line to its list exactly when \<open>e = 0\<close> or \<open>e > now\<close>; and the utility
  \<open>isCookieExpired\<close> of the v2 checker, with its own parse of the field, keeps the line
  exactly when \<open>e = 0\<close> or \<open>e \<ge> now\<close>.
\<close>

lemma cookie_validity_filter:
  "7 \<le> length (strSplit TAB line) \<Longrightarrow>
     (parseInt10 (strSplit TAB line ! 4) = Some e \<longrightarrow>
        (validCount (processCookieFile_line clk acc line) = validCount acc + 1
           \<longleftrightarrow> (e = 0 \<or> e > clk (clockReads acc) div 1000))
      \<and> (expiredCount (processCookieFile_line clk acc line) = expiredCount acc + 1
           \<longleftrightarrow> \<not> (e = 0 \<or> e > clk (clockReads acc) div 1000))
      \<and> (readAndValidateCookies_line now cs line \<noteq> cs \<longleftrightarrow> (e = 0 \<or> e > now)))
   \<and> (parseInt (strSplit TAB line ! 4) = Some e' \<longrightarrow>
        (\<not> isCookieExpired dateNow line \<longleftrightarrow> (e' = 0 \<or> e' \<ge> dateNow div 1000)))"
  by (auto simp: processCookieFile_line_def readAndValidateCookies_line_def isCookieExpired_def
        numGreater_def numEquals_def numLess_def Let_def)

text \<open>
  C4. The two filters of the v3 checker follow the rule, and \<open>isCookieExpired\<close> does not
  at the boundary: at a clock reading of 1000000 ms (second 1000) the line with expiry 1000
  is rejected by the injection pass of the v3 checker and kept (not expired) by
  \<open>isCookieExpired\<close>, although 1000 is neither 0 nor greater than 1000.
\<close>

theorem isCookieExpired_keeps_cookie_expiring_now:
  "parseInt (strSplit TAB (sampleCookieLine ''a.example'' ''1000'') ! 4) = Some 1000
   \<and> \<not> ((1000::int) = 0 \<or> (1000::int) > 1000000 div 1000)
   \<and> readAndValidateCookies 1000000 (sampleCookieLine ''a.example'' ''1000'') = []
   \<and> \<not> isCookieExpired 1000000 (sampleCookieLine ''a.example'' ''1000'')"
  by code_simp

text \<open>
  C5. The discovery pass reads the clock again for every line. With two lines of the same
  expiry 1000 and a clock that passes from second 999 to second 1000 between the two
  readings, the first line is counted valid and the second expired.
\<close>

theorem processCookieFile_rereads_clock:
  "validCount (processCookieFile (\<lambda>k. if k = 0 then 999999 else 1000000) 0
      (sampleCookieLine ''a.example'' ''1000'' @ [LF] @ sampleCookieLine ''b.example'' ''1000'')) = 1
   \<and> expiredCount (processCookieFile (\<lambda>k. if k = 0 then 999999 else 1000000) 0
      (sampleCookieLine ''a.example'' ''1000'' @ [LF] @ sampleCookieLine ''b.example'' ''1000'')) = 1"
  by code_simp

text \<open>
  C10. A cookie line (seven fields or more) whose expiry field parses to \<open>NaN\<close> is not
  valid in either pass of the v3 checker: the discovery pass leaves the count of valid
  cookies and the cookie list of every domain as they were and counts the line as expired,
  and the injection pass leaves its list as it was. Both loop bodies return a value on
  every line.
\<close>

theorem nan_expiry_not_valid:
  "7 \<le> length (strSplit TAB line) \<Longrightarrow> parseInt10 (strSplit TAB line ! 4) = None \<Longrightarrow>
     validCount (processCookieFile_line clk acc line) = validCount acc
   \<and> expiredCount (processCookieFile_line clk acc line) = expiredCount acc + 1
   \<and> mapGetOr (domainCookies (processCookieFile_line clk acc line)) d [] = mapGetOr (domainCookies acc) d []
   \<and> readAndValidateCookies_line now cs line = cs"
  by (simp add: processCookieFile_line_def readAndValidateCookies_line_def
        numGreater_def numEquals_def Let_def mapGetOr_mapSet_new)

theorem nan_expiry_not_valid_witness:
  "7 \<le> length (strSplit TAB (sampleCookieLine ''a.example'' ''never''))
   \<and> parseInt10 (strSplit TAB (sampleCookieLine ''a.example'' ''never'') ! 4) = None
   \<and> expiredCount (processCookieFile_line (\<lambda>k. 0)
        \<lparr>domainCookies = [], validCount = 0, expiredCount = 0, clockReads = 0\<rparr>
        (sampleCookieLine ''a.example'' ''never'')) = 1
   \<and> readAndValidateCookies_line 0 [] (sampleCookieLine ''a.example'' ''never'') = []"
  using nan_expiry_not_valid [OF sampleCookieLine_fields(4,5), of "\<lambda>k. 0"
      "\<lparr>domainCookies = [], validCount = 0, expiredCount = 0, clockReads = 0\<rparr>" "''a.example''" 0 "[]"]
    sampleCookieLine_fields(4,5)
  by simp

section \<open>Properties of the cross-reference engine\<close>

lemma strIncludes_sublist: "strIncludes s p = sublist p s"
  by (induction s) (auto simp: sublist_Cons_right)

lemma strSplit_not_Nil: "strSplit c xs \<noteq> []"
  by (induction xs) (auto split: list.splits)

lemma hd_strSplit_prefix: "prefix (hd (strSplit c xs)) xs"
  by (induction xs) (auto split: list.splits)

lemma tl_strSplit_sublist: "s \<in> set (tl (strSplit c xs)) \<Longrightarrow> sublist (c # s) xs"
proof (induction xs)
  case Nil
  then show ?case by simp
next
  case (Cons x xs)
  show ?case
  proof (cases "x = c")
    case True
    with Cons.prems have "s \<in> set (strSplit c xs)" by simp
    then have "s = hd (strSplit c xs) \<or> s \<in> set (tl (strSplit c xs))"
      using strSplit_not_Nil [of c xs] by (cases "strSplit c xs") auto
    then show ?thesis
    proof
      assume "s = hd (strSplit c xs)"
      then have "prefix (c # s) (x # xs)" using True hd_strSplit_prefix [of c xs] by simp
      then show ?thesis by (rule prefix_imp_sublist)
    next
      assume "s \<in> set (tl (strSplit c xs))"
      then have "sublist (c # s) xs" by (rule Cons.IH)
      then show ?thesis by (simp add: sublist_Cons_right)
    qed
  next
    case False
    with Cons.prems have "s \<in> set (tl (strSplit c xs))"
      using strSplit_not_Nil [of c xs] by (cases "strSplit c xs") auto
    then have "sublist (c # s) xs" by (rule Cons.IH)
    then show ?thesis by (simp add: sublist_Cons_right)
  qed
qed

lemma authPatterns_lower: "list_all (\<lambda>p. toLowerCase p = p) authPatterns"
  by code_simp

lemma specPathSegments_sublist:
  assumes "seg \<in> set (specPathSegments u)"
  shows "sublist seg u"
proof -
  define rest where "rest = (if prefix ''https://'' u then drop 8 u
                  else if prefix ''http://'' u then drop 7 u else u)"
  define path where "path = dropWhile (\<lambda>c. c \<noteq> CHR ''/'')
                   (takeWhile (\<lambda>c. c \<noteq> CHR ''?'' \<and> c \<noteq> CHR ''#'') rest)"
  from assms obtain s where s: "seg = CHR ''/'' # s" "s \<in> set (tl (strSplit (CHR ''/'') path))"
    by (auto simp: specPathSegments_def Let_def rest_def path_def)
  then have 1: "sublist seg path" by (simp add: tl_strSplit_sublist)
  have "suffix rest u" by (simp add: rest_def suffix_drop)
  then have 2: "sublist rest u" by (rule suffix_imp_sublist)
  have 3: "sublist path (takeWhile (\<lambda>c. c \<noteq> CHR ''?'' \<and> c \<noteq> CHR ''#'') rest)"
    unfolding path_def by (rule suffix_imp_sublist) (rule suffix_dropWhile)
  have 4: "sublist (takeWhile (\<lambda>c. c \<noteq> CHR ''?'' \<and> c \<noteq> CHR ''#'') rest) rest"
    by (rule prefix_imp_sublist) (rule takeWhile_is_prefix)
  from 1 3 4 2 show ?thesis by (meson sublist_order.order_trans)
qed

text \<open>
  C6, as amended. A URL is classified as an authenticated endpoint exactly when its
  lowercased text contains one of the patterns as a contiguous substring, anywhere in the
  URL. Every URL with a path segment equal to a pattern is classified so; the converse
  does not hold.
\<close>

theorem isAuthenticatedUrl_substring:
  "(isAuthenticatedUrl u \<longleftrightarrow>
      (\<exists>pattern \<in> set authPatterns. \<exists>pre post. toLowerCase u = pre @ pattern @ post))
   \<and> (specAuthenticatedUrl u \<longrightarrow> isAuthenticatedUrl u)"
proof
  show iff: "isAuthenticatedUrl u \<longleftrightarrow>
      (\<exists>pattern \<in> set authPatterns. \<exists>pre post. toLowerCase u = pre @ pattern @ post)"
    by (simp add: isAuthenticatedUrl_def list_ex_iff strIncludes_sublist sublist_def)
  show "specAuthenticatedUrl u \<longrightarrow> isAuthenticatedUrl u"
  proof
    assume "specAuthenticatedUrl u"
    then obtain seg where seg: "seg \<in> set (specPathSegments u)" "seg \<in> set authPatterns"
      by (auto simp: specAuthenticatedUrl_def list_ex_iff)
    from seg(1) have "sublist seg u" by (rule specPathSegments_sublist)
    then have "sublist (toLowerCase seg) (toLowerCase u)"
      unfolding toLowerCase_def by (rule map_mono_sublist)
    moreover have "toLowerCase seg = seg"
      using authPatterns_lower seg(2) by (simp add: list_all_iff)
    ultimately have "sublist seg (toLowerCase u)" by simp
    with seg(2) show "isAuthenticatedUrl u"
      by (auto simp: isAuthenticatedUrl_def list_ex_iff strIncludes_sublist)
  qed
qed

theorem isAuthenticatedUrl_substring_witness:
  "specAuthenticatedUrl ''https://example.com/dashboard/x'' \<and> isAuthenticatedUrl ''https://example.com/dashboard/x''"
proof -
  have s: "specAuthenticatedUrl ''https://example.com/dashboard/x''" by code_simp
  with isAuthenticatedUrl_substring [of "''https://example.com/dashboard/x''"] show ?thesis by blast
qed

text \<open>
  C6, as stated, fails: the only path segment of the URL below is \<open>/homepage\<close>, which is
  not a member of the pattern set, and the URL is classified as authenticated because it
  contains \<open>/home\<close>.
\<close>

theorem isAuthenticatedUrl_segment_counterexample:
  "isAuthenticatedUrl ''https://example.com/homepage'' \<and> \<not> specAuthenticatedUrl ''https://example.com/homepage''"
  by code_simp

text \<open>
  C7. The key of a cookie record keeps a leading dot and its capital letters, and the key
  of a history record keeps the prefix \<open>www.\<close>: the patterns that the two
  \<open>replace\<close> calls look for exclude the dot. The same site is filed under
  \<open>.Example.com\<close> in the cookie map and under \<open>www.example.com\<close> in the history map.
\<close>

theorem domain_key_not_normalized:
  "mapKeys (domainCookies (processCookieFile (\<lambda>k. 0) 0 (sampleCookieLine ''.Example.com'' ''0'')))
     = [''.Example.com'']
   \<and> mapKeys (fst (processHistoryFile
            (\<lambda>u. if u = ''https://www.example.com/'' then Some ''www.example.com'' else None)
            (tsv [''https://www.example.com/'', ''Example'', ''3''])))
     = [''www.example.com'']"
  by code_simp

lemma mapSet_mem: "(k, v) \<in> set (mapSet m k' v') \<Longrightarrow> (k, v) = (k', v') \<or> (k, v) \<in> set m"
  by (induction m k' v' rule: mapSet.induct) (auto split: if_splits)

lemma foldl_mapSet_values:
  "(k, v) \<in> set (foldl (\<lambda>m d. mapSet m d (f d)) m ds) \<Longrightarrow>
     \<forall>(k, v) \<in> set m. v = f k \<Longrightarrow> v = f k"
proof (induction ds arbitrary: m)
  case Nil
  then show ?case by auto
next
  case (Cons d ds)
  have "\<forall>(k, v) \<in> set (mapSet m d (f d)). v = f k"
    using Cons.prems(2) mapSet_mem by fastforce
  with Cons.IH [of "mapSet m d (f d)"] Cons.prems(1) show ?case by simp
qed

lemma analyzeDiscoveredData_entry:
  "(d, p) \<in> set (analyzeDiscoveredData dd) \<Longrightarrow> p = analyzeDiscoveredData_domain dd d"
  unfolding analyzeDiscoveredData_def
  by (rule foldl_mapSet_values [where f = "analyzeDiscoveredData_domain dd"]) auto

lemma set_inner_fold:
  "set (foldl (\<lambda>acc' entry. if P entry then acc' @ [entry] else acc') acc es)
     = set acc \<union> {e \<in> set es. P e}"
  by (induction es arbitrary: acc) auto

lemma set_authenticatedUrls_fold:
  "set (foldl (\<lambda>acc historyGroup.
              foldl (\<lambda>acc' entry. if isAuthenticatedUrl (url entry) then acc' @ [entry] else acc')
                acc (entries historyGroup)) acc groups)
     = set acc \<union> {e. \<exists>g \<in> set groups. e \<in> set (entries g) \<and> isAuthenticatedUrl (url e)}"
  by (induction groups arbitrary: acc) (auto simp: set_inner_fold)

lemma set_authenticatedUrls:
  "set (authenticatedUrls groups)
     = {e. \<exists>g \<in> set groups. e \<in> set (entries g) \<and> isAuthenticatedUrl (url e)}"
  by (simp add: authenticatedUrls_def set_authenticatedUrls_fold)

lemma topEndpoints_empty: "topEndpoints es = [] \<longleftrightarrow> es = []"
  by (cases "sort_key (\<lambda>e. - visitCount e) es") (auto simp: topEndpoints_def dest: arg_cong [where f = length])

lemma add_if_weight: "(if b then s + n else s) = s + (if b then n else (0::nat))"
  by simp

lemma scoreOf_sum:
  "scoreOf a =
     min ((if hasCookies a then 40 else 0) + (if hasHistory a then 20 else 0)
        + (if hasPasswords a then 25 else 0) + (if hasAutofills a then 15 else 0)
        + (if highValue a then 20 else 0)
        + (if authenticatedEndpoints a \<noteq> [] then 30 else 0)) 100"
  unfolding scoreOf_def Let_def add_if_weight
  by (simp split del: if_split)

lemma analysis_flags:
  "hasCookies (analysis (analyzeDiscoveredData_domain dd d)) = mapHas (cookiesMap dd) d"
  "hasHistory (analysis (analyzeDiscoveredData_domain dd d)) = mapHas (historyMap dd) d"
  "hasPasswords (analysis (analyzeDiscoveredData_domain dd d)) = mapHas (passwordsMap dd) d"
  "hasAutofills (analysis (analyzeDiscoveredData_domain dd d)) = mapHas (autofillsMap dd) d"
  "highValue (analysis (analyzeDiscoveredData_domain dd d)) = (d \<in> set highValueDomains)"
  "history (analyzeDiscoveredData_domain dd d) = mapGetOr (historyMap dd) d []"
  "authenticatedEndpoints (analysis (analyzeDiscoveredData_domain dd d)) =
     (if length (mapGetOr (historyMap dd) d []) > 0
      then topEndpoints (authenticatedUrls (mapGetOr (historyMap dd) d [])) else [])"
  by (simp_all add: analyzeDiscoveredData_domain_def Let_def split del: if_split)

lemma crossReferenceScore_scoreOf:
  "crossReferenceScore (analysis (analyzeDiscoveredData_domain dd d)) =
     scoreOf (analysis (analyzeDiscoveredData_domain dd d))"
  unfolding analyzeDiscoveredData_domain_def Let_def
  by (simp add: scoreOf_sum split del: if_split)

lemma authenticatedUrls_nonempty:
  "authenticatedUrls hs \<noteq> [] \<longleftrightarrow> (\<exists>g \<in> set hs. \<exists>e \<in> set (entries g). isAuthenticatedUrl (url e))"
proof -
  have "authenticatedUrls hs \<noteq> [] \<longleftrightarrow> set (authenticatedUrls hs) \<noteq> {}" by simp
  also have "\<dots> \<longleftrightarrow> (\<exists>g \<in> set hs. \<exists>e \<in> set (entries g). isAuthenticatedUrl (url e))"
    unfolding set_authenticatedUrls by blast
  finally show ?thesis .
qed

lemma authenticatedEndpoints_nonempty:
  "authenticatedEndpoints (analysis (analyzeDiscoveredData_domain dd d)) \<noteq> [] \<longleftrightarrow>
     (\<exists>g \<in> set (history (analyzeDiscoveredData_domain dd d)). \<exists>e \<in> set (entries g). isAuthenticatedUrl (url e))"
proof (cases "mapGetOr (historyMap dd) d [] = []")
  case True
  then show ?thesis by (simp add: analysis_flags)
next
  case False
  then show ?thesis by (simp add: analysis_flags topEndpoints_empty authenticatedUrls_nonempty)
qed

lemma map_of_mapPush:
  "map_of (mapPush m k x) = (map_of m)(k \<mapsto> mapGetOr m k [] @ [x])"
  by (simp add: mapPush_def map_of_mapSet)

lemma storeGroups_step_nonempty:
  assumes "\<forall>k gs. map_of m k = Some gs \<longrightarrow> gs \<noteq> []"
  shows "\<forall>k gs. map_of (mapPush (if \<not> mapHas m d then mapSet m d [] else m) d g) k = Some gs
           \<longrightarrow> gs \<noteq> []"
  using assms by (auto simp: map_of_mapPush map_of_mapSet split: if_splits)

text \<open>
  The store step appends a group whenever it creates a key, so in the maps that the file
  passes build, a domain is a key exactly when it has at least one group.
\<close>

lemma storeGroups_nonempty:
  "\<forall>k gs. map_of m k = Some gs \<longrightarrow> gs \<noteq> [] \<Longrightarrow>
     \<forall>k gs. map_of (storeGroups m perDomain relativePath mtime) k = Some gs \<longrightarrow> gs \<noteq> []"
  unfolding storeGroups_def
proof (induction perDomain arbitrary: m)
  case Nil
  then show ?case by simp
next
  case (Cons p perDomain)
  obtain d es where p: "p = (d, es)" by (cases p)
  show ?case
    unfolding p foldl_Cons prod.case
    by (rule Cons.IH) (rule storeGroups_step_nonempty [OF Cons.prems])
qed

lemma mapHas_groups:
  "\<forall>k gs. map_of m k = Some gs \<longrightarrow> gs \<noteq> [] \<Longrightarrow> mapHas m d \<longleftrightarrow> mapGetOr m d [] \<noteq> []"
  by (auto simp: mapHas_def mapGetOr_def split: option.splits)

text \<open>
  C1. For every profile that the cross-reference engine produces, the score is the sum of
  the weights of the signals present, capped at 100: 40 when the domain is a key of the
  cookie map (a group was stored for it), 20 for the history map, 25 for the password map,
  15 for the autofill map, 20 when the domain is on the high-value list, and 30 when the
  list of authenticated endpoints is not empty, which is the case exactly when some
  history entry of the domain has an authenticated URL. With all six signals the score
  is 100.
\<close>

theorem crossReferenceScore_weighted_sum:
  assumes "(d, p) \<in> set (analyzeDiscoveredData dd)"
  shows "crossReferenceScore (analysis p) =
           min ((if mapHas (cookiesMap dd) d then 40 else 0)
              + (if mapHas (historyMap dd) d then 20 else 0)
              + (if mapHas (passwordsMap dd) d then 25 else 0)
              + (if mapHas (autofillsMap dd) d then 15 else 0)
              + (if d \<in> set highValueDomains then 20 else 0)
              + (if authenticatedEndpoints (analysis p) \<noteq> [] then 30 else 0)) 100
         \<and> (authenticatedEndpoints (analysis p) \<noteq> [] \<longleftrightarrow>
              (\<exists>g \<in> set (history p). \<exists>e \<in> set (entries g). isAuthenticatedUrl (url e)))
         \<and> (mapHas (cookiesMap dd) d \<and> mapHas (historyMap dd) d \<and> mapHas (passwordsMap dd) d
              \<and> mapHas (autofillsMap dd) d \<and> d \<in> set highValueDomains
              \<and> authenticatedEndpoints (analysis p) \<noteq> []
            \<longrightarrow> crossReferenceScore (analysis p) = 100)"
proof -
  from assms have p: "p = analyzeDiscoveredData_domain dd d" by (rule analyzeDiscoveredData_entry)
  have score: "crossReferenceScore (analysis p) =
           min ((if mapHas (cookiesMap dd) d then 40 else 0)
              + (if mapHas (historyMap dd) d then 20 else 0)
              + (if mapHas (passwordsMap dd) d then 25 else 0)
              + (if mapHas (autofillsMap dd) d then 15 else 0)
              + (if d \<in> set highValueDomains then 20 else 0)
              + (if authenticatedEndpoints (analysis p) \<noteq> [] then 30 else 0)) 100"
    unfolding p crossReferenceScore_scoreOf scoreOf_sum analysis_flags(1-5) ..
  have ends: "authenticatedEndpoints (analysis p) \<noteq> [] \<longleftrightarrow>
              (\<exists>g \<in> set (history p). \<exists>e \<in> set (entries g). isAuthenticatedUrl (url e))"
    unfolding p by (rule authenticatedEndpoints_nonempty)
  have full: "mapHas (cookiesMap dd) d \<and> mapHas (historyMap dd) d \<and> mapHas (passwordsMap dd) d
              \<and> mapHas (autofillsMap dd) d \<and> d \<in> set highValueDomains
              \<and> authenticatedEndpoints (analysis p) \<noteq> []
            \<longrightarrow> crossReferenceScore (analysis p) = 100"
  proof
    assume a: "mapHas (cookiesMap dd) d \<and> mapHas (historyMap dd) d \<and> mapHas (passwordsMap dd) d
              \<and> mapHas (autofillsMap dd) d \<and> d \<in> set highValueDomains
              \<and> authenticatedEndpoints (analysis p) \<noteq> []"
    show "crossReferenceScore (analysis p) = 100"
      unfolding score using a by simp
  qed
  from score ends full show ?thesis by (intro conjI)
qed

theorem crossReferenceScore_weighted_sum_witness:
  "(''gmail.com'', analyzeDiscoveredData_domain sampleData ''gmail.com'')
     \<in> set (analyzeDiscoveredData sampleData)
   \<and> crossReferenceScore (analysis (analyzeDiscoveredData_domain sampleData ''gmail.com'')) = 100"
proof -
  have mem: "(''gmail.com'', analyzeDiscoveredData_domain sampleData ''gmail.com'')
     \<in> set (analyzeDiscoveredData sampleData)"
    by code_simp
  have signals: "mapHas (cookiesMap sampleData) ''gmail.com''"
    "mapHas (historyMap sampleData) ''gmail.com''"
    "mapHas (passwordsMap sampleData) ''gmail.com''"
    "mapHas (autofillsMap sampleData) ''gmail.com''"
    "''gmail.com'' \<in> set highValueDomains"
    "authenticatedEndpoints (analysis (analyzeDiscoveredData_domain sampleData ''gmail.com'')) \<noteq> []"
    by code_simp+
  from crossReferenceScore_weighted_sum [OF mem] signals mem show ?thesis by blast
qed

section \<open>Properties of the session classifier and of the result aggregator\<close>

lemma foldl_count:
  "foldl (\<lambda>score k. if P k then score + 1 else score) n ks = n + length (filter P ks)"
  by (induction ks arbitrary: n) auto

lemma keywordScore_matches:
  "keywordScore keywords (toLowerCase html) (toLowerCase t) (toLowerCase u)
     = length (keywordMatches keywords html t u)"
  by (simp add: keywordScore_def keywordMatches_def foldl_count)

lemma add_if_bonus: "(if b then s + n else s) = s + (if b then n else (0::nat))"
  by simp

lemma detection_fields:
  fixes html t u
  defines "d \<equiv> performDetectionAnalysis html t u"
  shows "hasLogoutButton (indicators d) =
           (strIncludes (toLowerCase html) ''logout'' \<or> strIncludes (toLowerCase html) ''sign out'')"
    and "hasWelcomeMessage (indicators d) =
           (strIncludes (toLowerCase html) ''welcome'' \<or> strIncludes (toLowerCase html) ''hello'')"
    and "hasPersonalInfo (indicators d) =
           (strIncludes (toLowerCase html) ''profile'' \<or> strIncludes (toLowerCase html) ''account'')"
    and "hasAuthenticatedContent (indicators d) =
           (strIncludes (toLowerCase html) ''dashboard'' \<or> strIncludes (toLowerCase html) ''inbox'')"
    and "loginScore d = length (keywordMatches loginKeywords html t u)"
    and "loggedInScore d =
           length (keywordMatches loggedInKeywords html t u)
           + (if hasLogoutButton (indicators d) then 3 else 0)
           + (if hasWelcomeMessage (indicators d) then 2 else 0)
           + (if hasPersonalInfo (indicators d) then 2 else 0)
           + (if hasAuthenticatedContent (indicators d) then 3 else 0)"
    and "confidence d =
           round ((of_nat (loggedInScore d) / (of_nat (loggedInScore d) + of_nat (loginScore d) + 1 / 10)) * 100 :: rat)"
    and "isLoggedIn d = (confidence d \<ge> 60)"
    and "status d = (if isLoggedIn d then ''LOGGED_IN'' else ''NOT_LOGGED_IN'')"
  unfolding d_def performDetectionAnalysis_def Let_def add_if_bonus keywordScore_matches
  by (simp_all split del: if_split)

lemma confidence_formula_bounds:
  fixes a b :: nat
  shows "0 \<le> round ((of_nat a / (of_nat a + of_nat b + 1 / 10)) * 100 :: rat)"
    and "round ((of_nat a / (of_nat a + of_nat b + 1 / 10)) * 100 :: rat) \<le> 100"
proof -
  let ?x = "(of_nat a / (of_nat a + of_nat b + 1 / 10)) * 100 :: rat"
  have pos: "(0::rat) < of_nat a + of_nat b + 1 / 10"
    by (simp add: add_nonneg_pos)
  have "(of_nat a :: rat) \<le> of_nat a + of_nat b + 1 / 10" by simp
  with pos have le1: "of_nat a / (of_nat a + of_nat b + 1 / 10) \<le> (1::rat)"
    by (simp add: divide_le_eq_1)
  have ge0: "0 \<le> of_nat a / (of_nat a + of_nat b + 1 / 10 :: rat)"
    using pos by (simp add: divide_nonneg_pos)
  have "0 \<le> ?x" using ge0 by simp
  then have "round (0::rat) \<le> round ?x" by (rule round_mono)
  then show "0 \<le> round ?x" by simp
  have "of_nat a / (of_nat a + of_nat b + 1 / 10) * 100 \<le> (1::rat) * 100"
    using le1 by (rule mult_right_mono) simp
  then have "?x \<le> 100" by simp
  then have "round ?x \<le> round (100::rat)" by (rule round_mono)
  then show "round ?x \<le> 100" by simp
qed

lemma loggedIn_members:
  "''logout'' \<in> set loggedInKeywords" "''sign out'' \<in> set loggedInKeywords"
  "''welcome'' \<in> set loggedInKeywords" "''profile'' \<in> set loggedInKeywords"
  "''account'' \<in> set loggedInKeywords" "''dashboard'' \<in> set loggedInKeywords"
  "''inbox'' \<in> set loggedInKeywords"
  by (simp_all add: loggedInKeywords_def)

lemma no_match_no_include:
  "keywordMatches keywords html t u = [] \<Longrightarrow> k \<in> set keywords \<Longrightarrow> \<not> strIncludes (toLowerCase html) k"
  by (auto simp: keywordMatches_def filter_empty_conv)

text \<open>
  C3, as amended. The logged-in score is the number of logged-in keywords found in the
  lowercased markup, title or URL, plus 3 when the markup contains \<open>logout\<close> or
  \<open>sign out\<close>, plus 2 when it contains \<open>welcome\<close> or \<open>hello\<close>, plus 2 when it contains
  \<open>profile\<close> or \<open>account\<close>, plus 3 when it contains \<open>dashboard\<close> or \<open>inbox\<close>; the four
  indicator flags of the result report exactly these four conditions. The login score is
  the number of login keywords found. The confidence is
  \<open>round(loggedInScore / (loggedInScore + loginScore + 0.1) * 100)\<close> and lies between 0 and
  100, and the verdict is \<open>LOGGED_IN\<close> exactly when the confidence is at least 60. When no
  logged-in keyword is found and the markup does not contain \<open>hello\<close>, the confidence is 0
  and the verdict is \<open>NOT_LOGGED_IN\<close>.
\<close>

theorem classifier_confidence:
  fixes html t u
  defines "d \<equiv> performDetectionAnalysis html t u"
    and "markup \<equiv> toLowerCase html"
  shows "loggedInScore d =
           length (keywordMatches loggedInKeywords html t u)
           + (if strIncludes markup ''logout'' \<or> strIncludes markup ''sign out'' then 3 else 0)
           + (if strIncludes markup ''welcome'' \<or> strIncludes markup ''hello'' then 2 else 0)
           + (if strIncludes markup ''profile'' \<or> strIncludes markup ''account'' then 2 else 0)
           + (if strIncludes markup ''dashboard'' \<or> strIncludes markup ''inbox'' then 3 else 0)
       \<and> hasLogoutButton (indicators d)
            = (strIncludes markup ''logout'' \<or> strIncludes markup ''sign out'')
       \<and> hasWelcomeMessage (indicators d)
            = (strIncludes markup ''welcome'' \<or> strIncludes markup ''hello'')
       \<and> hasPersonalInfo (indicators d)
            = (strIncludes markup ''profile'' \<or> strIncludes markup ''account'')
       \<and> hasAuthenticatedContent (indicators d)
            = (strIncludes markup ''dashboard'' \<or> strIncludes markup ''inbox'')
       \<and> loginScore d = length (keywordMatches loginKeywords html t u)
       \<and> confidence d =
           round ((of_nat (loggedInScore d) / (of_nat (loggedInScore d) + of_nat (loginScore d) + 1 / 10)) * 100 :: rat)
       \<and> 0 \<le> confidence d \<and> confidence d \<le> 100
       \<and> isLoggedIn d = (confidence d \<ge> 60)
       \<and> status d = (if confidence d \<ge> 60 then ''LOGGED_IN'' else ''NOT_LOGGED_IN'')
       \<and> (keywordMatches loggedInKeywords html t u = [] \<and> \<not> strIncludes markup ''hello''
            \<longrightarrow> confidence d = 0 \<and> status d = ''NOT_LOGGED_IN'')"
proof -
  note f = detection_fields [of html t u, folded d_def markup_def]
  have score: "loggedInScore d =
           length (keywordMatches loggedInKeywords html t u)
           + (if strIncludes markup ''logout'' \<or> strIncludes markup ''sign out'' then 3 else 0)
           + (if strIncludes markup ''welcome'' \<or> strIncludes markup ''hello'' then 2 else 0)
           + (if strIncludes markup ''profile'' \<or> strIncludes markup ''account'' then 2 else 0)
           + (if strIncludes markup ''dashboard'' \<or> strIncludes markup ''inbox'' then 3 else 0)"
    unfolding f(6) f(1-4) ..
  have verdict: "status d = (if confidence d \<ge> 60 then ''LOGGED_IN'' else ''NOT_LOGGED_IN'')"
    unfolding f(9) f(8) ..
  have zero: "keywordMatches loggedInKeywords html t u = [] \<and> \<not> strIncludes markup ''hello''
            \<longrightarrow> confidence d = 0 \<and> status d = ''NOT_LOGGED_IN''"
  proof
    assume a: "keywordMatches loggedInKeywords html t u = [] \<and> \<not> strIncludes markup ''hello''"
    then have none: "keywordMatches loggedInKeywords html t u = []"
      and hello: "\<not> strIncludes markup ''hello''" by simp_all
    have flags: "\<not> strIncludes markup ''logout''" "\<not> strIncludes markup ''sign out''"
      "\<not> strIncludes markup ''welcome''" "\<not> strIncludes markup ''profile''"
      "\<not> strIncludes markup ''account''" "\<not> strIncludes markup ''dashboard''"
      "\<not> strIncludes markup ''inbox''"
      unfolding markup_def using no_match_no_include [OF none] loggedIn_members by blast+
    have "loggedInScore d = 0" using none flags hello by (simp add: score)
    then have "confidence d = 0" by (simp add: f(7))
    then show "confidence d = 0 \<and> status d = ''NOT_LOGGED_IN''" by (simp add: verdict)
  qed
  have bounds: "0 \<le> confidence d" "confidence d \<le> 100"
    unfolding f(7) by (rule confidence_formula_bounds)+
  from score f(1-5) f(7) bounds f(8) verdict zero show ?thesis by (intro conjI)
qed

theorem classifier_confidence_witness:
  "keywordMatches loggedInKeywords ''Please wait'' ''Loading'' ''https://example.com/'' = []
   \<and> \<not> strIncludes (toLowerCase ''Please wait'') ''hello''
   \<and> confidence (performDetectionAnalysis ''Please wait'' ''Loading'' ''https://example.com/'') = 0
   \<and> status (performDetectionAnalysis ''Please wait'' ''Loading'' ''https://example.com/'') = ''NOT_LOGGED_IN''
   \<and> loggedInScore (performDetectionAnalysis ''Logout Dashboard'' ''Home'' ''https://example.com/'') = 8"
proof -
  have h: "keywordMatches loggedInKeywords ''Please wait'' ''Loading'' ''https://example.com/'' = []"
    "\<not> strIncludes (toLowerCase ''Please wait'') ''hello''"
    by code_simp+
  have k: "length (keywordMatches loggedInKeywords ''Logout Dashboard'' ''Home'' ''https://example.com/'') = 2"
    by code_simp
  have b: "strIncludes (toLowerCase ''Logout Dashboard'') ''logout''"
    "\<not> strIncludes (toLowerCase ''Logout Dashboard'') ''welcome''"
    "\<not> strIncludes (toLowerCase ''Logout Dashboard'') ''hello''"
    "\<not> strIncludes (toLowerCase ''Logout Dashboard'') ''profile''"
    "\<not> strIncludes (toLowerCase ''Logout Dashboard'') ''account''"
    "strIncludes (toLowerCase ''Logout Dashboard'') ''dashboard''"
    by code_simp+
  have "loggedInScore (performDetectionAnalysis ''Logout Dashboard'' ''Home'' ''https://example.com/'') = 8"
    using classifier_confidence [of "''Logout Dashboard''" "''Home''" "''https://example.com/''"] k b
    by simp
  with h classifier_confidence [of "''Please wait''" "''Loading''" "''https://example.com/''"]
  show ?thesis by blast
qed

text \<open>
  C3, as stated, fails: the markup \<open>hello\<close> matches no keyword of either list, and the
  greeting bonus alone gives confidence 95 and the verdict \<open>LOGGED_IN\<close>.
\<close>

theorem classifier_hello_counterexample:
  "keywordMatches loggedInKeywords ''hello'' [] [] = []
   \<and> keywordMatches loginKeywords ''hello'' [] [] = []
   \<and> confidence (performDetectionAnalysis ''hello'' [] []) = 95
   \<and> status (performDetectionAnalysis ''hello'' [] []) = ''LOGGED_IN''"
  by code_simp


lemma successRate_defined:
  "length results \<noteq> length (errorResults results) \<Longrightarrow>
     successRate (saveTestResults results) =
       Num (of_nat (successful (saveTestResults results))
            / of_nat (totalTested (saveTestResults results) - errors (saveTestResults results)) * 100)"
proof -
  assume ne: "length results \<noteq> length (errorResults results)"
  have "length (errorResults results) \<le> length results"
    unfolding errorResults_def by (rule length_filter_le)
  with ne have "length results - length (errorResults results) \<noteq> 0" by simp
  then show ?thesis
    by (simp add: saveTestResults_def jsDivide_def jsTimes_def)
qed

text \<open>
  C9. When every test ended in an error, or no test ran, the denominator is 0 and the
  success rate of the summary is \<open>NaN\<close>, not 0.
\<close>

theorem successRate_all_errors:
  "successRate (saveTestResults [TestError ''a.example'' ''No valid cookies found for a.example'']) = NaN
   \<and> successRate (saveTestResults []) = NaN"
  by code_simp

section \<open>Properties of the T-1 timing controller\<close>

lemma firstTime_append:
  "firstTime P (xs @ ys) = (case firstTime P xs of Some t \<Rightarrow> Some t | None \<Rightarrow> firstTime P ys)"
  by (induction xs) auto

lemma await_fields:
  "trace (await e ms w) = trace w"
  "clock (await e ms w) = clock w + ms + int (lag e (suspensions w))"
  by (simp_all add: await_def)

lemma logEvent_fields:
  "trace (logEvent ev w) = trace w @ [(clock w, ev)]"
  "clock (logEvent ev w) = clock w"
  "suspensions (logEvent ev w) = suspensions w"
  by (simp_all add: logEvent_def)

lemma injectCookiesWithT1Timing_trace:
  assumes "injectCookiesWithT1Timing e p d w = (r, w')"
  shows "\<exists>new. trace w' = trace w @ new \<and> firstTime isNavigationStart new = None
           \<and> (case r of Inl msg \<Rightarrow> True
               | Inr res \<Rightarrow>
                   \<exists>ti. firstTime isInjectionComplete new = Some ti
                        \<and> ti + navigation_delay \<le> clock w')"
  using assms unfolding injectCookiesWithT1Timing_def
  by (auto simp: Let_def logEvent_def await_def isNavigationStart_def
        isInjectionComplete_def
      split: sum.splits option.splits if_splits)

lemma injectCookiesWithT1Timing_success:
  assumes "injectCookiesWithT1Timing e p d w = (Inr res, w')"
  shows "\<exists>content. readFileSync e p = Inr content
           \<and> readAndValidateCookies
                (clock (await e t_minus_1_delay (logEvent T1Preparing w))) content \<noteq> []
           \<and> setCookie e d
                (readAndValidateCookies
                   (clock (await e t_minus_1_delay (logEvent T1Preparing w))) content) = None"
  using assms unfolding injectCookiesWithT1Timing_def
  by (auto simp: Let_def split: sum.splits option.splits if_splits)

lemma analyzeSession_trace:
  assumes "analyzeSession e d u w = (r, w')"
  shows "\<exists>new. trace w' = trace w @ new"
  using assms unfolding analyzeSession_def
  by (auto simp: Let_def logEvent_def await_def split: sum.splits)

lemma t1Ordered_navigation:
  assumes "firstTime isNavigationStart new = None"
    and "firstTime isInjectionComplete new = Some ti" and "ti < t"
  shows "t1Ordered (new @ (t, NavigationStart u) # rest)"
  using assms by (simp add: t1Ordered_def firstTime_append isNavigationStart_def)

lemma firstTime_navigation:
  assumes "firstTime isNavigationStart new = None"
    and "firstTime isInjectionComplete new = Some ti"
  shows "firstTime isNavigationStart (new @ (t, NavigationStart u) # rest) = Some t"
    and "firstTime isInjectionComplete (new @ (t, NavigationStart u) # rest) = Some ti"
  using assms by (simp_all add: firstTime_append isNavigationStart_def)

lemma t1Ordered_no_navigation:
  "firstTime isNavigationStart new = None \<Longrightarrow> t1Ordered new"
  by (simp add: t1Ordered_def)

lemma firstTime_snoc_TestFailed:
  "firstTime isNavigationStart (new @ [(t, TestFailed msg)]) = firstTime isNavigationStart new"
  "firstTime isInjectionComplete (new @ [(t, TestFailed msg)]) = firstTime isInjectionComplete new"
  by (simp_all add: firstTime_append isNavigationStart_def isInjectionComplete_def
      split: option.splits)

lemma t1Ordered_snoc_TestFailed:
  "t1Ordered (new @ [(t, TestFailed msg)]) = t1Ordered new"
  unfolding t1Ordered_def firstTime_snoc_TestFailed by (rule refl)

lemma runAutoTestingMode_try_trace:
  assumes "runAutoTestingMode_try e cf d results w = (r, results', w')"
  shows "\<exists>new. trace w' = trace w @ new \<and> t1Ordered new
           \<and> (firstTime isNavigationStart new \<noteq> None \<longrightarrow>
                newPage e d = None
                \<and> (\<exists>content. readFileSync e (path cf) = Inr content
                      \<and> readAndValidateCookies
                           (clock (await e t_minus_1_delay (logEvent T1Preparing (await e 0 w))))
                           content \<noteq> []
                      \<and> setCookie e d
                           (readAndValidateCookies
                              (clock (await e t_minus_1_delay (logEvent T1Preparing (await e 0 w))))
                              content) = None))
           \<and> (\<forall>ti tn. firstTime isInjectionComplete new = Some ti
                  \<and> firstTime isNavigationStart new = Some tn
                \<longrightarrow> ti + navigation_delay \<le> tn)"
proof (cases "newPage e d")
  case (Some msg)
  with assms have "trace w' = trace w @ []"
    by (auto simp: runAutoTestingMode_try_def Let_def await_fields)
  moreover have "firstTime isNavigationStart [] = None" by simp
  ultimately show ?thesis using t1Ordered_no_navigation [of "[]"] by force
next
  case None
  obtain ri w1 where inj: "injectCookiesWithT1Timing e (path cf) d (await e 0 w) = (ri, w1)"
    by (cases "injectCookiesWithT1Timing e (path cf) d (await e 0 w)")
  from injectCookiesWithT1Timing_trace [OF inj] obtain new1 where
    new1: "trace w1 = trace w @ new1" "firstTime isNavigationStart new1 = None"
      "case ri of Inl msg \<Rightarrow> True
         | Inr res \<Rightarrow> \<exists>ti. firstTime isInjectionComplete new1 = Some ti
                          \<and> ti + navigation_delay \<le> clock w1"
    by (auto simp: await_fields)
  have quiet: ?thesis if "trace w' = trace w1"
  proof -
    from that new1(1) have "trace w' = trace w @ new1" by simp
    with new1(2) t1Ordered_no_navigation [OF new1(2)] show ?thesis by force
  qed
  show ?thesis
  proof (cases ri)
    case (Inl msg)
    with assms None inj have "trace w' = trace w1"
      by (auto simp: runAutoTestingMode_try_def Let_def await_fields)
    then show ?thesis by (rule quiet)
  next
    case (Inr injection)
    with new1(3) obtain ti where
      ti: "firstTime isInjectionComplete new1 = Some ti" "ti + navigation_delay \<le> clock w1"
      by auto
    from inj Inr have success:
      "\<exists>content. readFileSync e (path cf) = Inr content
          \<and> readAndValidateCookies
               (clock (await e t_minus_1_delay (logEvent T1Preparing (await e 0 w)))) content \<noteq> []
          \<and> setCookie e d
               (readAndValidateCookies
                  (clock (await e t_minus_1_delay (logEvent T1Preparing (await e 0 w))))
                  content) = None"
      by (simp add: injectCookiesWithT1Timing_success)
    show ?thesis
    proof (cases "readFileSync e (path cf)")
      case (Inl msg)
      with assms None inj Inr have "trace w' = trace w1"
        by (auto simp: runAutoTestingMode_try_def Let_def await_fields)
      then show ?thesis by (rule quiet)
    next
      case content: (Inr content)
      define tUrl where "tUrl = determineTestUrl content d"
      define w2 where
        "w2 = await e 0 (logEvent (NavigationStart tUrl) (await e 0 (await e 0 w1)))"
      define tn where "tn = clock (await e 0 (await e 0 w1))"
      have tn: "clock w1 \<le> tn"
        by (simp add: tn_def await_fields)
      have w2: "trace w2 = trace w @ new1 @ [(tn, NavigationStart tUrl)]"
        by (simp add: w2_def tn_def await_fields logEvent_fields new1(1))
      have "\<exists>rest. trace w' = trace w2 @ rest"
      proof (cases "goto e tUrl")
        case (Some msg)
        with assms None inj Inr content have "w' = w2"
          by (simp add: runAutoTestingMode_try_def Let_def tUrl_def w2_def)
        then show ?thesis by simp
      next
        case goto: None
        obtain ra w3 where an: "analyzeSession e d tUrl w2 = (ra, w3)"
          by (cases "analyzeSession e d tUrl w2")
        from analyzeSession_trace [OF an] obtain new3 where new3: "trace w3 = trace w2 @ new3"
          by blast
        from assms None inj Inr content goto an have "trace w' = trace w3"
          by (auto simp: runAutoTestingMode_try_def Let_def tUrl_def [symmetric] w2_def [symmetric]
                await_fields split: sum.splits option.splits if_splits)
        with new3 show ?thesis by simp
      qed
      then obtain rest where
        tr: "trace w' = trace w @ (new1 @ (tn, NavigationStart tUrl) # rest)"
        using w2 by auto
      have gap: "ti + navigation_delay \<le> tn" using ti(2) tn by simp
      then have "ti < tn" by (simp add: navigation_delay_def)
      with new1(2) ti(1) have ord: "t1Ordered (new1 @ (tn, NavigationStart tUrl) # rest)"
        by (rule t1Ordered_navigation)
      note ft = firstTime_navigation [OF new1(2) ti(1), of tn tUrl rest]
      from tr ord None success gap show ?thesis
        by (intro exI [of _ "new1 @ (tn, NavigationStart tUrl) # rest"]) (simp add: ft)
    qed
  qed
qed

text \<open>
  C2. In the trace of every test cycle, whatever the environment answers and however long
  each suspension takes: a navigation start is preceded by the injection-complete event,
  whose time stamp is strictly below that of the navigation start, by the navigation
  delay at least; and a navigation is started only when the injection took place, that
  is, when the page opened, the cookie file was read, the list of validated cookies was
  not empty and \<open>setCookie\<close> on that list returned without an error. A cycle whose
  injection fails issues no navigation.
\<close>

theorem t1_injection_before_navigation:
  fixes e cf st
  defines "tr \<equiv> testTrace e cf st"
    and "d \<equiv> domainOfFile (fileName cf)"
    and "dateNow \<equiv> clock (await e t_minus_1_delay (logEvent T1Preparing (await e 0 (snd st))))"
  shows "t1Ordered tr
       \<and> (\<forall>ti tn. firstTime isInjectionComplete tr = Some ti
              \<and> firstTime isNavigationStart tr = Some tn
            \<longrightarrow> ti + navigation_delay \<le> tn)
       \<and> (firstTime isNavigationStart tr \<noteq> None \<longrightarrow>
            newPage e d = None
            \<and> (\<exists>content. readFileSync e (path cf) = Inr content
                  \<and> readAndValidateCookies dateNow content \<noteq> []
                  \<and> setCookie e d (readAndValidateCookies dateNow content) = None))
       \<and> ((newPage e d \<noteq> None
            \<or> (\<forall>content. readFileSync e (path cf) = Inr content \<longrightarrow>
                  readAndValidateCookies dateNow content = []
                  \<or> setCookie e d (readAndValidateCookies dateNow content) \<noteq> None))
          \<longrightarrow> firstTime isNavigationStart tr = None)"
proof -
  obtain results w where st: "st = (results, w)" by (cases st)
  obtain r results' w' where
    t: "runAutoTestingMode_try e cf d results w = (r, results', w')"
    by (cases "runAutoTestingMode_try e cf d results w")
  from runAutoTestingMode_try_trace [OF t] obtain new where
    new: "trace w' = trace w @ new" "t1Ordered new"
      "firstTime isNavigationStart new \<noteq> None \<longrightarrow>
         newPage e d = None
         \<and> (\<exists>content. readFileSync e (path cf) = Inr content
               \<and> readAndValidateCookies dateNow content \<noteq> []
               \<and> setCookie e d (readAndValidateCookies dateNow content) = None)"
      "\<forall>ti tn. firstTime isInjectionComplete new = Some ti
           \<and> firstTime isNavigationStart new = Some tn
         \<longrightarrow> ti + navigation_delay \<le> tn"
    unfolding dateNow_def st snd_conv by blast
  have "tr = new \<or> (\<exists>t msg. tr = new @ [(t, TestFailed msg)])"
  proof (cases r)
    case (Inl msg)
    with st t new(1) have "tr = new @ [(clock w', TestFailed msg)]"
      by (simp add: tr_def d_def testTrace_def runAutoTestingMode_test_def Let_def
            await_fields logEvent_fields)
    then show ?thesis by blast
  next
    case (Inr u)
    with st t new(1) have "tr = new"
      by (simp add: tr_def d_def testTrace_def runAutoTestingMode_test_def Let_def await_fields)
    then show ?thesis by simp
  qed
  then have same: "t1Ordered tr = t1Ordered new"
    "firstTime isNavigationStart tr = firstTime isNavigationStart new"
    "firstTime isInjectionComplete tr = firstTime isInjectionComplete new"
    by (auto simp: t1Ordered_snoc_TestFailed firstTime_snoc_TestFailed)
  have 1: "t1Ordered tr" using new(2) same(1) by simp
  have 2: "\<forall>ti tn. firstTime isInjectionComplete tr = Some ti
              \<and> firstTime isNavigationStart tr = Some tn
            \<longrightarrow> ti + navigation_delay \<le> tn"
    using new(4) unfolding same(2,3) .
  have 3: "firstTime isNavigationStart tr \<noteq> None \<longrightarrow>
            newPage e d = None
            \<and> (\<exists>content. readFileSync e (path cf) = Inr content
                  \<and> readAndValidateCookies dateNow content \<noteq> []
                  \<and> setCookie e d (readAndValidateCookies dateNow content) = None)"
    using new(3) unfolding same(2) .
  have 4: "(newPage e d \<noteq> None
            \<or> (\<forall>content. readFileSync e (path cf) = Inr content \<longrightarrow>
                  readAndValidateCookies dateNow content = []
                  \<or> setCookie e d (readAndValidateCookies dateNow content) \<noteq> None))
          \<longrightarrow> firstTime isNavigationStart tr = None"
  proof (cases "firstTime isNavigationStart tr")
    case None
    then show ?thesis by simp
  next
    case (Some tn)
    with 3 show ?thesis by auto
  qed
  from 1 2 3 4 show ?thesis by (intro conjI)
qed

theorem t1_injection_before_navigation_witness:
  "t1Ordered (testTrace sampleEnvNavigates sampleCookieFile ([], sampleWorld))
   \<and> firstTime isInjectionComplete (testTrace sampleEnvNavigates sampleCookieFile ([], sampleWorld))
        = Some 1700000002500
   \<and> firstTime isNavigationStart (testTrace sampleEnvNavigates sampleCookieFile ([], sampleWorld))
        = Some 1700000003500
   \<and> (1700000002500::int) + navigation_delay \<le> 1700000003500
   \<and> newPage sampleEnvNavigates (domainOfFile (fileName sampleCookieFile)) = None
   \<and> (\<exists>content. readFileSync sampleEnvNavigates (path sampleCookieFile) = Inr content
         \<and> setCookie sampleEnvNavigates (domainOfFile (fileName sampleCookieFile))
              (readAndValidateCookies
                 (clock (await sampleEnvNavigates t_minus_1_delay
                           (logEvent T1Preparing (await sampleEnvNavigates 0 sampleWorld))))
                 content) = None)
   \<and> (\<forall>cs. setCookie sampleEnvInjectionFails (domainOfFile (fileName sampleCookieFile)) cs \<noteq> None)
   \<and> firstTime isNavigationStart
        (testTrace sampleEnvInjectionFails sampleCookieFile ([], sampleWorld)) = None"
proof -
  have inj: "firstTime isInjectionComplete
               (testTrace sampleEnvNavigates sampleCookieFile ([], sampleWorld))
             = Some 1700000002500"
    by code_simp
  have nav: "firstTime isNavigationStart
               (testTrace sampleEnvNavigates sampleCookieFile ([], sampleWorld))
             = Some 1700000003500"
    by code_simp
  have fails: "\<forall>cs. setCookie sampleEnvInjectionFails (domainOfFile (fileName sampleCookieFile)) cs
                 \<noteq> None"
    by (simp add: sampleEnvInjectionFails_def)
  note a = t1_injection_before_navigation [of sampleEnvNavigates sampleCookieFile "([], sampleWorld)"]
  note b = t1_injection_before_navigation
             [of sampleEnvInjectionFails sampleCookieFile "([], sampleWorld)"]
  from a inj nav have 1:
    "t1Ordered (testTrace sampleEnvNavigates sampleCookieFile ([], sampleWorld))"
    "(1700000002500::int) + navigation_delay \<le> 1700000003500"
    "newPage sampleEnvNavigates (domainOfFile (fileName sampleCookieFile)) = None"
    "\<exists>content. readFileSync sampleEnvNavigates (path sampleCookieFile) = Inr content
         \<and> setCookie sampleEnvNavigates (domainOfFile (fileName sampleCookieFile))
              (readAndValidateCookies
                 (clock (await sampleEnvNavigates t_minus_1_delay
                           (logEvent T1Preparing (await sampleEnvNavigates 0 sampleWorld))))
                 content) = None"
    by auto
  from b fails have 2:
    "firstTime isNavigationStart
       (testTrace sampleEnvInjectionFails sampleCookieFile ([], sampleWorld)) = None"
    by simp
  from 1 inj nav fails 2 show ?thesis by (intro conjI)
qed








end
